theory Spec2Isabelle
  imports Main
begin

section \<open>Values shared by the server and the client\<close>

text \<open>
  Bytes are characters, byte sequences are strings. Times and durations are integers
  (nanoseconds, as \<open>time.Duration\<close> counts them). An \<open>error\<close> value \<open>None\<close> is Go's
  \<open>nil\<close>. \<open>NetError t\<close> is any error that implements \<open>net.Error\<close>, with
  \<open>t\<close> the result of its \<open>Timeout()\<close>; \<open>io.EOF\<close> is not one of them.
\<close>

type_synonym bytes = string
type_synonym time = int

definition Second :: time where
  "Second = 1000000000"

datatype error = EOF | NetError bool | ErrShortWrite | Failure string

text \<open>
  The header names are constants of the package whose declarations are not part of the
  sources at hand.
\<close>

definition X_HTTPCONN_ID :: string where
  \<comment> \<open>Modelled from the spec: the constant's declaration is missing; the header table
      calls the header Connection-Id.\<close>
  "X_HTTPCONN_ID = ''Connection-Id''"

definition X_HTTPCONN_DEST_ADDR :: string where
  \<comment> \<open>Modelled from the spec: the constant's declaration is missing; the header table
      calls the header Destination-Address.\<close>
  "X_HTTPCONN_DEST_ADDR = ''Destination-Address''"

definition X_HTTPCONN_EOF :: string where
  \<comment> \<open>Modelled from the spec: the constant's declaration is missing; the header table
      calls the header Upstream-EOF.\<close>
  "X_HTTPCONN_EOF = ''Upstream-EOF''"

definition X_HTTPCONN_PROXY_HOST :: string where
  \<comment> \<open>Modelled from the spec: the constant's declaration is missing; the header table
      calls the header Proxy-Host.\<close>
  "X_HTTPCONN_PROXY_HOST = ''Proxy-Host''"

definition X_ENPROXY_EOF :: string where
  \<comment> \<open>Modelled from the spec: the constant's declaration is missing; it is the client's
      name of the Upstream-EOF header of the header table.\<close>
  "X_ENPROXY_EOF = ''Upstream-EOF''"

text \<open>What one pass through the body of a loop decides: go round again, or return.\<close>

datatype 'a loop_step = Continue 'a | Return 'a

definition Header_Get :: "(string \<rightharpoonup> string) \<Rightarrow> string \<Rightarrow> string" where
  \<comment> \<open>\<open>http.Header.Get\<close>: the empty string when the header is absent.\<close>
  "Header_Get h k = (case h k of None \<Rightarrow> [] | Some v \<Rightarrow> v)"

section \<open>The outbound socket (\<open>net.Conn\<close>)\<close>

text \<open>
  The socket is outside the program, so it is modelled by what it will do. \<open>inbound\<close>
  lists the results the peer has in store for the successive \<open>Read\<close> calls: each entry
  is the time at which the result becomes available, the bytes, and the error returned
  with them (every chunk is taken to fit the buffer it is read into). A \<open>Read\<close> whose
  deadline passes first returns a timeout and leaves the entry in place; once
  \<open>io.EOF\<close> has been returned it is returned by every later \<open>Read\<close>; when nothing is
  in store and no deadline is set the \<open>Read\<close> never returns (\<open>None\<close>).
  \<open>outbound\<close> collects the bytes written to the socket; \<open>wcap\<close>, when set, is the
  number of bytes the socket still accepts before its writes fail. \<open>reads\<close> counts the
  \<open>Read\<close> calls made.
\<close>

record sock =
  inbound :: "(time \<times> bytes \<times> error option) list"
  outbound :: bytes
  wcap :: "nat option"
  readDeadline :: "time option"
  sclosed :: bool
  reads :: nat

definition SetReadDeadline :: "sock \<Rightarrow> time \<Rightarrow> sock" where
  "SetReadDeadline s t = s\<lparr>readDeadline := Some t\<rparr>"

definition sock_Close :: "sock \<Rightarrow> sock" where
  "sock_Close s = s\<lparr>sclosed := True\<rparr>"

definition sock_Write :: "sock \<Rightarrow> bytes \<Rightarrow> nat \<times> error option \<times> sock" where
  "sock_Write s p =
     (if sclosed s then (0, Some (NetError False), s)
      else case wcap s of
        None \<Rightarrow> (length p, None, s\<lparr>outbound := outbound s @ p\<rparr>)
      | Some k \<Rightarrow>
          if length p \<le> k
          then (length p, None, s\<lparr>outbound := outbound s @ p, wcap := Some (k - length p)\<rparr>)
          else (k, Some (NetError False),
                s\<lparr>outbound := outbound s @ take k p, wcap := Some 0\<rparr>))"

definition sock_Read ::
  "sock \<Rightarrow> time \<Rightarrow> ((bytes \<times> error option) \<times> sock \<times> time) option" where
  "sock_Read s now =
     (let s1 = s\<lparr>reads := Suc (reads s)\<rparr> in
      if sclosed s then Some (([], Some (NetError False)), s1, now)
      else case inbound s of
        [] \<Rightarrow>
          (case readDeadline s of
             None \<Rightarrow> None
           | Some dl \<Rightarrow> Some (([], Some (NetError True)), s1, max now dl))
      | (t, d, e) # rest \<Rightarrow>
          (if (case readDeadline s of None \<Rightarrow> False | Some dl \<Rightarrow> dl < max now t)
           then Some (([], Some (NetError True)), s1, max now (the (readDeadline s)))
           else Some ((d, e),
                  s1\<lparr>inbound := (if e = Some EOF then [(t, [], Some EOF)] else rest)\<rparr>,
                  max now t)))"

text \<open>
  A \<open>Read\<close> into a buffer of \<open>n\<close> bytes. A buffer with no room makes the \<open>Read\<close> of
  an open socket return at once, with no bytes and no error, whatever the peer has in
  store, the end of the stream included; a buffer with room reads as above.
\<close>

definition sock_Read_into ::
  "sock \<Rightarrow> nat \<Rightarrow> time \<Rightarrow> ((bytes \<times> error option) \<times> sock \<times> time) option" where
  "sock_Read_into s n now =
     (if n = 0 \<and> \<not> sclosed s then Some (([], None), s\<lparr>reads := Suc (reads s)\<rparr>, now)
      else sock_Read s now)"

section \<open>The HTTP exchange as the server sees it\<close>

text \<open>
  A request carries its method, its headers and its body; the body is the list of results
  of the successive \<open>Body.Read\<close> calls, after which \<open>Read\<close> returns \<open>io.EOF\<close>.
\<close>

record request =
  rmethod :: string
  rheader :: "string \<rightharpoonup> string"
  rqbody :: "(bytes \<times> error option) list"

text \<open>
  \<open>http.ResponseWriter\<close>: \<open>header\<close> is the map behind \<open>Header()\<close>; \<open>wrote\<close> is
  the status and the headers that \<open>WriteHeader\<close> sent (the first call wins, later changes
  of the map are not sent); \<open>rbody\<close> is the body written so far and \<open>flushed\<close> the
  length of its prefix that has been flushed to the client; \<open>rcap\<close>, when set, is the
  number of body bytes the client still accepts before writes fail.
\<close>

record response =
  header :: "string \<rightharpoonup> string"
  wrote :: "(nat \<times> (string \<rightharpoonup> string)) option"
  rbody :: bytes
  flushed :: nat
  rcap :: "nat option"

definition Header_Set :: "response \<Rightarrow> string \<Rightarrow> string \<Rightarrow> response" where
  "Header_Set r k v = r\<lparr>header := (header r)(k \<mapsto> v)\<rparr>"

definition WriteHeader :: "response \<Rightarrow> nat \<Rightarrow> response" where
  "WriteHeader r code =
     (case wrote r of None \<Rightarrow> r\<lparr>wrote := Some (code, header r)\<rparr> | Some _ \<Rightarrow> r)"

definition resp_Write :: "response \<Rightarrow> bytes \<Rightarrow> nat \<times> error option \<times> response" where
  "resp_Write r p =
     (let r1 = WriteHeader r 200 in
      case rcap r1 of
        None \<Rightarrow> (length p, None, r1\<lparr>rbody := rbody r1 @ p\<rparr>)
      | Some k \<Rightarrow>
          if length p \<le> k
          then (length p, None, r1\<lparr>rbody := rbody r1 @ p, rcap := Some (k - length p)\<rparr>)
          else (k, Some (NetError False),
                r1\<lparr>rbody := rbody r1 @ take k p, rcap := Some 0\<rparr>))"

definition Flush :: "response \<Rightarrow> response" where
  "Flush r = (let r1 = WriteHeader r 200 in r1\<lparr>flushed := length (rbody r1)\<rparr>)"

definition status :: "response \<Rightarrow> nat option" where
  "status r = map_option fst (wrote r)"

definition sent_header :: "response \<Rightarrow> string \<Rightarrow> string" where
  "sent_header r k = (case wrote r of None \<Rightarrow> [] | Some (c, h) \<Rightarrow> Header_Get h k)"

text \<open>
  \<open>io.Copy(connOut, req.Body)\<close>, after the standard library: read until the source
  reports an error, write every chunk read, stop at the first write error or short write;
  the source's \<open>io.EOF\<close> is not an error of the copy.
\<close>

fun io_Copy_to_sock :: "sock \<Rightarrow> (bytes \<times> error option) list \<Rightarrow> error option \<times> sock" where
  "io_Copy_to_sock s [] = (None, s)"
| "io_Copy_to_sock s ((d, er) # rest) =
     (if d \<noteq> [] then
        (case sock_Write s d of (nw, ew, s1) \<Rightarrow>
           if ew \<noteq> None then (ew, s1)
           else if nw \<noteq> length d then (Some ErrShortWrite, s1)
           else (case er of
                   None \<Rightarrow> io_Copy_to_sock s1 rest
                 | Some e \<Rightarrow> (if e = EOF then None else Some e, s1)))
      else (case er of
              None \<Rightarrow> io_Copy_to_sock s rest
            | Some e \<Rightarrow> (if e = EOF then None else Some e, s)))"

section \<open>The flush-paced writer\<close>

text \<open>
  \<open>maxLatencyWriter\<close>: \<open>dst\<close> and \<open>latency\<close> are the fields of the struct.
  \<open>flushLoop\<close> runs beside the writes; its ticker is modelled by \<open>nextTick\<close>, the time
  of the next tick, and \<open>running\<close> says that the loop has not received from \<open>done\<close>
  yet. \<open>lk\<close> makes each write and each flush one step.
\<close>

record maxLatencyWriter =
  dst :: response
  latency :: time
  nextTick :: time
  running :: bool

definition mlw_Write :: "maxLatencyWriter \<Rightarrow> bytes \<Rightarrow> nat \<times> error option \<times> maxLatencyWriter" where
  "mlw_Write m p = (case resp_Write (dst m) p of (n, e, r) \<Rightarrow> (n, e, m\<lparr>dst := r\<rparr>))"

definition flushLoop_tick :: "maxLatencyWriter \<Rightarrow> maxLatencyWriter" where
  \<comment> \<open>the \<open>case <-t.C\<close> branch of \<open>flushLoop\<close>; the loop only runs until \<open>done\<close>.\<close>
  "flushLoop_tick m = (if running m then m\<lparr>dst := Flush (dst m)\<rparr> else m)"

definition flushLoop_until :: "maxLatencyWriter \<Rightarrow> time \<Rightarrow> maxLatencyWriter" where
  \<comment> \<open>the ticks of \<open>flushLoop\<close> that are due at time \<open>now\<close>: one flush if a tick has
      passed, and the ticker moves on to its first tick after \<open>now\<close>.\<close>
  "flushLoop_until m now =
     (if running m \<and> nextTick m \<le> now
      then (flushLoop_tick m)
             \<lparr>nextTick := nextTick m + latency m * ((now - nextTick m) div latency m + 1)\<rparr>
      else m)"

definition mlw_stop :: "maxLatencyWriter \<Rightarrow> maxLatencyWriter" where
  \<comment> \<open>\<open>m.done <- true\<close>: \<open>flushLoop\<close> takes its \<open>case <-m.done\<close> branch and returns,
      and its deferred \<open>t.Stop()\<close> stops the ticker.\<close>
  "mlw_stop m = m\<lparr>running := False\<rparr>"

section \<open>The server: lazy connections and the session router\<close>

text \<open>
  \<open>lazyConn\<close>: its declaration is missing from the sources; the fields are those the
  data model lists (id, destination address, the socket dialed on demand, the EOF flag,
  the bytes-read counter), and \<open>dialErr\<close> keeps the failure of the one dial.
\<close>

record lazyConn =
  lc_id :: string
  lc_addr :: string
  connOut :: "sock option"
  dialErr :: "error option"
  hitEOF :: bool
  bytesRead :: int

text \<open>
  \<open>Proxy\<close>: the fields of the struct (the streaming server has \<open>FlushInterval\<close>, the
  bounded-read server \<open>IdleInterval\<close> and \<open>BufferSize\<close>). \<open>Dial\<close> gives the socket
  that dialing an address yields, or the failure. Two more fields record what the struct
  does not: \<open>clock\<close> is the value of \<open>time.Now()\<close>, and \<open>dialed\<close> lists the
  addresses dialed so far.
\<close>

record Proxy =
  Dial :: "string \<Rightarrow> error + sock"
  Host :: string
  FlushInterval :: time
  IdleInterval :: time
  IdleTimeout :: time
  BufferSize :: int
  connMap :: "string \<rightharpoonup> lazyConn"
  clock :: time
  dialed :: "string list"

definition newLazyConn :: "string \<Rightarrow> string \<Rightarrow> lazyConn" where
  \<comment> \<open>Modelled from the spec: \<open>Proxy.newLazyConn\<close> is missing; a LazyConn is created
      with its id and destination address, no socket yet, the EOF flag clear and the
      counter at zero.\<close>
  "newLazyConn cid addr =
     \<lparr>lc_id = cid, lc_addr = addr, connOut = None, dialErr = None, hitEOF = False,
      bytesRead = 0\<rparr>"

definition lazyConn_get :: "Proxy \<Rightarrow> lazyConn \<Rightarrow> (error + sock) \<times> lazyConn \<times> string list" where
  \<comment> \<open>Modelled from the spec: \<open>lazyConn.get\<close> is missing; it returns the owned socket,
      dialing it on the first call with the address recorded at creation and caching the
      result for all later calls, and returns a failure if the dial fails. The third
      component lists the addresses this call dialed.\<close>
  "lazyConn_get p l =
     (case dialErr l of
        Some e \<Rightarrow> (Inl e, l, [])
      | None \<Rightarrow>
          (case connOut l of
             Some s \<Rightarrow> (Inr s, l, [])
           | None \<Rightarrow>
               (case Dial p (lc_addr l) of
                  Inl e \<Rightarrow> (Inl e, l\<lparr>dialErr := Some e\<rparr>, [lc_addr l])
                | Inr s \<Rightarrow> (Inr s, l\<lparr>connOut := Some s\<rparr>, [lc_addr l]))))"

text \<open>
  \<open>getLazyConn\<close> is the same in both servers. The \<open>*lazyConn\<close> it returns points into
  the map: the model returns the record stored under the id, and the callers store the
  record back under that id after changing it.
\<close>

definition getLazyConn :: "Proxy \<Rightarrow> string \<Rightarrow> string \<Rightarrow> Proxy \<times> lazyConn" where
  "getLazyConn p cid addr =
     (case connMap p cid of
        None \<Rightarrow>
          (let l = newLazyConn cid addr in (p\<lparr>connMap := (connMap p)(cid \<mapsto> l)\<rparr>, l))
      | Some l \<Rightarrow> (p, l))"

subsection \<open>The streaming server\<close>

definition BAD_GATEWAY :: nat where
  "BAD_GATEWAY = 502"

definition badGateway_streaming :: "response \<Rightarrow> string \<Rightarrow> response" where
  \<comment> \<open>the message only goes to the log, which is not modelled\<close>
  "badGateway_streaming resp msg = WriteHeader resp BAD_GATEWAY"

definition handlePOST :: "response \<Rightarrow> request \<Rightarrow> sock \<Rightarrow> response \<times> sock" where
  "handlePOST resp req c =
     (case io_Copy_to_sock c (rqbody req) of (err, c1) \<Rightarrow>
        if err \<noteq> None \<and> err \<noteq> Some EOF
        then (badGateway_streaming resp ''Unable to write to connOut'', c1)
        else (WriteHeader resp 200, c1))"

text \<open>
  \<open>io.Copy(mlw, connOut)\<close>: as above, with the socket as the source and the flush-paced
  writer as the destination; the flushes that fall due while a \<open>Read\<close> waits are made
  before the next write. A \<open>Read\<close> that never returns makes the copy never return.
\<close>

function io_Copy_from_sock ::
  "maxLatencyWriter \<Rightarrow> sock \<Rightarrow> time \<Rightarrow> (error option \<times> maxLatencyWriter \<times> sock \<times> time) option" where
  "io_Copy_from_sock m s now =
     (case sock_Read s now of
        None \<Rightarrow> None
      | Some ((d, er), s1, t1) \<Rightarrow>
          (let m0 = flushLoop_until m t1 in
           if d \<noteq> [] then
             (case mlw_Write m0 d of (nw, ew, m1) \<Rightarrow>
                if ew \<noteq> None then Some (ew, m1, s1, t1)
                else if nw \<noteq> length d then Some (Some ErrShortWrite, m1, s1, t1)
                else (case er of
                        None \<Rightarrow> io_Copy_from_sock m1 s1 t1
                      | Some e \<Rightarrow> Some (if e = EOF then None else Some e, m1, s1, t1)))
           else (case er of
                   None \<Rightarrow> io_Copy_from_sock m0 s1 t1
                 | Some e \<Rightarrow> Some (if e = EOF then None else Some e, m0, s1, t1))))"
  by pat_completeness auto

lemma sock_Read_consumes:
  "sock_Read s now = Some ((d, None), s1, t1) \<Longrightarrow> length (inbound s1) < length (inbound s)"
  by (auto simp: sock_Read_def Let_def split: if_splits list.splits option.splits)

termination io_Copy_from_sock
  by (relation "measure (\<lambda>(m, s, now). length (inbound s))")
     (auto dest: sock_Read_consumes)

declare io_Copy_from_sock.simps [simp del]

text \<open>
  \<open>handleGET\<close>. \<open>time.NewTicker\<close> panics when the interval is not positive, so the
  handler does not return then (\<open>None\<close>). \<open>emptyBuffer\<close> is a variable of the package
  whose declaration is not part of the sources at hand: its length is the first argument
  of the handler, and of \<open>ServeHTTP\<close>, and the bytes read into it are dropped.
\<close>

definition handleGET ::
  "nat \<Rightarrow> Proxy \<Rightarrow> response \<Rightarrow> request \<Rightarrow> lazyConn \<Rightarrow> sock \<Rightarrow> (Proxy \<times> response \<times> lazyConn) option" where
  "handleGET emptyBuffer p resp req lc c =
     (if hitEOF lc then
        Some (p, WriteHeader (Header_Set resp X_HTTPCONN_EOF ''true'') 200, lc)
      else
        (let resp1 = WriteHeader (Header_Set resp ''X-Accel-Buffering'' ''no'') 200 in
         if FlushInterval p \<le> 0 then None
         else
           (let mlw = \<lparr>dst = resp1, latency = FlushInterval p,
                       nextTick = clock p + FlushInterval p, running = True\<rparr>;
                c1 = SetReadDeadline c (clock p + 30 * Second)
            in case io_Copy_from_sock mlw c1 (clock p) of
                 None \<Rightarrow> None
               | Some (err, mlw1, c2, t2) \<Rightarrow>
                   (case (if err = None
                          then (case sock_Read_into c2 emptyBuffer t2 of
                                  None \<Rightarrow> None
                                | Some ((d, e), c3, t3) \<Rightarrow> Some (e, c3, t3))
                          else Some (err, c2, t2)) of
                      None \<Rightarrow> None
                    | Some (err1, c3, t3) \<Rightarrow>
                        Some (p\<lparr>clock := t3\<rparr>,
                              dst (mlw_stop (flushLoop_until mlw1 t3)),
                              lc\<lparr>connOut := Some c3,
                                 hitEOF := (if err1 = Some EOF then True else hitEOF lc)\<rparr>)))))"

definition ServeHTTP_streaming :: "nat \<Rightarrow> Proxy \<Rightarrow> response \<Rightarrow> request \<Rightarrow> (Proxy \<times> response) option" where
  "ServeHTTP_streaming emptyBuffer p resp req =
     (let cid = Header_Get (rheader req) X_HTTPCONN_ID in
      if cid = [] then Some (p, badGateway_streaming resp ''No id found in header'')
      else
        (let addr = Header_Get (rheader req) X_HTTPCONN_DEST_ADDR in
         if addr = [] then Some (p, badGateway_streaming resp ''No address found in header'')
         else
           (case getLazyConn p cid addr of (p1, lc) \<Rightarrow>
              (case lazyConn_get p1 lc of (got, lc1, ds) \<Rightarrow>
                 (let p2 = p1\<lparr>connMap := (connMap p1)(cid \<mapsto> lc1), dialed := dialed p1 @ ds\<rparr> in
                  case got of
                    Inl err \<Rightarrow> Some (p2, badGateway_streaming resp ''Unable to get connOut'')
                  | Inr c \<Rightarrow>
                      if rmethod req = ''POST'' then
                        (case handlePOST resp req c of (resp1, c1) \<Rightarrow>
                           Some (p2\<lparr>connMap := (connMap p2)(cid \<mapsto> lc1\<lparr>connOut := Some c1\<rparr>)\<rparr>,
                                 resp1))
                      else if rmethod req = ''GET'' then
                        (case handleGET emptyBuffer p2 resp req lc1 c of
                           None \<Rightarrow> None
                         | Some (p3, resp1, lc2) \<Rightarrow>
                             Some (p3\<lparr>connMap := (connMap p3)(cid \<mapsto> lc2)\<rparr>, resp1))
                      else Some (p2, badGateway_streaming resp ''Method not supported''))))))"

subsection \<open>The bounded-read server\<close>

definition badGateway_bounded :: "response \<Rightarrow> string \<Rightarrow> response" where
  \<comment> \<open>the message only goes to the log; the body written is the same for every message\<close>
  "badGateway_bounded resp msg =
     (let r1 = Header_Set resp ''Connection'' ''close'';
          r2 = WriteHeader r1 BAD_GATEWAY
      in case resp_Write r2 (''No id found in header '' @ X_HTTPCONN_ID) of (n, e, r3) \<Rightarrow> r3)"

text \<open>
  The \<open>for\<close> loop of \<open>ServeHTTP\<close> that writes the response: first one pass through
  its body, then the loop. A \<open>net.Error\<close> that is not a timeout leaves the \<open>switch\<close>
  without a \<open>return\<close>, so the loop goes on; the loop therefore need not end, and
  \<open>None\<close> is the run that never returns.
\<close>

definition readLoop_pass ::
  "Proxy \<Rightarrow> response \<Rightarrow> lazyConn \<Rightarrow> sock \<Rightarrow> bool \<Rightarrow> time \<Rightarrow>
     (response \<times> lazyConn \<times> sock \<times> time) loop_step option" where
  "readLoop_pass p resp lc c first now =
     (let c1 = SetReadDeadline c (now + IdleInterval p) in
      case sock_Read c1 now of
        None \<Rightarrow> None
      | Some ((d, readErr), c2, t2) \<Rightarrow>
          (let resp1 =
                 (if first then
                    (let r1 = (if readErr = Some EOF
                               then Header_Set resp X_HTTPCONN_EOF ''true'' else resp);
                         r2 = (if Host p \<noteq> []
                               then Header_Set r1 X_HTTPCONN_PROXY_HOST (Host p) else r1)
                     in WriteHeader r2 200)
                  else resp)
           in case (if d \<noteq> [] then resp_Write resp1 d else (0, None, resp1)) of
                (nw, writeErr, resp2) \<Rightarrow>
                  if d \<noteq> [] \<and> writeErr \<noteq> None
                  then Some (Return (resp2, lc, sock_Close c2, t2))
                  else
                    (let lc1 = (if d \<noteq> []
                                then lc\<lparr>bytesRead := bytesRead lc + int (length d)\<rparr> else lc)
                     in case readErr of
                          None \<Rightarrow> Some (Continue (resp2, lc1, c2, t2))
                        | Some e \<Rightarrow>
                            (case e of
                               NetError tmo \<Rightarrow>
                                 if tmo then Some (Return (resp2, lc1, c2, t2))
                                 else Some (Continue (resp2, lc1, c2, t2))
                             | EOF \<Rightarrow> Some (Return (resp2, lc1, c2, t2))
                             | ErrShortWrite \<Rightarrow> Some (Return (resp2, lc1, sock_Close c2, t2))
                             | Failure m \<Rightarrow> Some (Return (resp2, lc1, sock_Close c2, t2))))))"

partial_function (option) readLoop ::
  "Proxy \<Rightarrow> response \<Rightarrow> lazyConn \<Rightarrow> sock \<Rightarrow> bool \<Rightarrow> time \<Rightarrow>
     (response \<times> lazyConn \<times> sock \<times> time) option" where
  "readLoop p resp lc c first now =
     (case readLoop_pass p resp lc c first now of
        None \<Rightarrow> None
      | Some (Return x) \<Rightarrow> Some x
      | Some (Continue (resp2, lc1, c2, t2)) \<Rightarrow> readLoop p resp2 lc1 c2 False t2)"

declare readLoop.simps [code]

definition ServeHTTP_bounded :: "Proxy \<Rightarrow> response \<Rightarrow> request \<Rightarrow> (Proxy \<times> response) option" where
  "ServeHTTP_bounded p resp req =
     (let cid = Header_Get (rheader req) X_HTTPCONN_ID in
      if cid = [] then Some (p, badGateway_bounded resp ''No id found in header'')
      else
        (let addr = Header_Get (rheader req) X_HTTPCONN_DEST_ADDR in
         if addr = [] then Some (p, badGateway_bounded resp ''No address found in header'')
         else
           (case getLazyConn p cid addr of (p1, lc) \<Rightarrow>
              (case lazyConn_get p1 lc of (got, lc1, ds) \<Rightarrow>
                 (let p2 = p1\<lparr>connMap := (connMap p1)(cid \<mapsto> lc1), dialed := dialed p1 @ ds\<rparr> in
                  case got of
                    Inl err \<Rightarrow> Some (p2, badGateway_bounded resp ''Unable to get connOut'')
                  | Inr c \<Rightarrow>
                      (case io_Copy_to_sock c (rqbody req) of (err, c1) \<Rightarrow>
                         if err \<noteq> None then
                           Some (p2\<lparr>connMap :=
                                       (connMap p2)(cid \<mapsto> lc1\<lparr>connOut := Some (sock_Close c1)\<rparr>)\<rparr>,
                                 badGateway_bounded resp ''Unable to write to connOut'')
                         else
                           (case readLoop p2 resp lc1 c1 True (clock p2) of
                              None \<Rightarrow> None
                            | Some (resp1, lc2, c2, t2) \<Rightarrow>
                                Some (p2\<lparr>connMap := (connMap p2)(cid \<mapsto> lc2\<lparr>connOut := Some c2\<rparr>),
                                         clock := t2\<rparr>,
                                      resp1))))))))"

section \<open>The client: the read loop of \<open>Conn\<close>\<close>

text \<open>
  \<open>http.Response\<close> as the read loop uses it: the headers, and the body as the list of
  results of the successive \<open>Body.Read\<close> calls (\<open>io.EOF\<close> once the list is used up).
\<close>

record httpResponse =
  h_header :: "string \<rightharpoonup> string"
  h_body :: "(bytes \<times> error option) list"
  h_closed :: bool

definition Body_Read :: "httpResponse \<Rightarrow> (bytes \<times> error option) \<times> httpResponse" where
  "Body_Read r = (case h_body r of [] \<Rightarrow> (([], Some EOF), r) | x # xs \<Rightarrow> (x, r\<lparr>h_body := xs\<rparr>))"

definition Body_Close :: "httpResponse \<Rightarrow> httpResponse" where
  "Body_Close r = r\<lparr>h_closed := True\<rparr>"

text \<open>\<open>rwResponse{n, err}\<close>\<close>

type_synonym rwResponse = "nat \<times> error option"

text \<open>
  \<open>Conn\<close>: its declaration is missing from the sources; these are the fields the read
  loop touches. A channel is the queue of what has been sent on it and not yet received:
  \<open>readRequestsCh\<close> holds the submitted buffers (by their lengths), \<open>stopReadCh\<close>
  the number of pending stop signals, and \<open>readResponsesCh\<close> every response the loop
  has sent, oldest first. \<open>requestsIssued\<close> counts the calls of \<open>doRequest\<close>.
\<close>

record Conn =
  Config_IdleTimeout :: time
  doneReading :: bool
  readRequestsCh :: "nat list"
  readRequestsCh_closed :: bool
  readResponsesCh :: "rwResponse list"
  stopReadCh :: nat
  closed :: bool
  lastActivityTime :: time
  requestsIssued :: nat

definition isClosed :: "Conn \<Rightarrow> bool" where
  \<comment> \<open>Modelled from the spec: \<open>Conn.isClosed\<close> is missing; the connection is closed once
      the caller has closed it.\<close>
  "isClosed c = closed c"

definition isIdle :: "Conn \<Rightarrow> time \<Rightarrow> bool" where
  \<comment> \<open>Modelled from the spec: \<open>Conn.isIdle\<close> is missing; the connection is idle when
      the time since the last activity is at least IdleTimeout.\<close>
  "isIdle c now = (Config_IdleTimeout c \<le> now - lastActivityTime c)"

definition markActive :: "Conn \<Rightarrow> time \<Rightarrow> Conn" where
  \<comment> \<open>Modelled from the spec: \<open>Conn.markActive\<close> is missing; the activity timestamp is
      updated on any successful read or write.\<close>
  "markActive c now = c\<lparr>lastActivityTime := now\<rparr>"

definition send_response :: "Conn \<Rightarrow> rwResponse \<Rightarrow> Conn" where
  \<comment> \<open>\<open>c.readResponsesCh <- r\<close>\<close>
  "send_response c r = c\<lparr>readResponsesCh := readResponsesCh c @ [r]\<rparr>"

text \<open>
  \<open>submitRead\<close>. Sending on a closed channel panics: \<open>None\<close>.
\<close>

definition submitRead :: "Conn \<Rightarrow> nat \<Rightarrow> (Conn \<times> bool) option" where
  "submitRead c b =
     (if doneReading c then Some (c, False)
      else if readRequestsCh_closed c then None
      else Some (c\<lparr>readRequestsCh := readRequestsCh c @ [b]\<rparr>, True))"

text \<open>
  One pass through the \<open>for\<close> loop of \<open>processReads\<close>. What the surroundings decide
  during the pass is its input: the time, the case the \<open>select\<close> takes, and the results
  of \<open>redialProxyIfNecessary\<close> and \<open>doRequest\<close> should the pass call them. The state
  of the loop is the connection and the local variable \<open>resp\<close>. A pass either goes
  round again or returns from \<open>processReads\<close>; \<open>None\<close> says that the \<open>select\<close>
  cannot take that case (nothing to receive on the channel).
\<close>

datatype select_case = RecvReadRequest | RecvStopRead | TimeAfter

record pass_input =
  now :: time
  sel :: select_case
  redialErr :: "error option"
  requestRes :: "error + httpResponse"

fun processReads_pass ::
  "pass_input \<Rightarrow> Conn \<times> httpResponse option \<Rightarrow> (Conn \<times> httpResponse option) loop_step option" where
  "processReads_pass i (c, resp) =
     (if isClosed c then Some (Return (c, resp))
      else case sel i of
        RecvReadRequest \<Rightarrow>
          (case readRequestsCh c of
             [] \<Rightarrow> None
           | b # bs \<Rightarrow>
               (let c0 = c\<lparr>readRequestsCh := bs\<rparr> in
                case (case resp of
                        Some r \<Rightarrow> Inr (c0, r)
                      | None \<Rightarrow>
                          if isIdle c0 (now i) then Inl (c0, None)
                          else
                            (let c1 = (case redialErr i of
                                         Some e \<Rightarrow>
                                           send_response c0 (0, Some (Failure ''Unable to redial proxy''))
                                       | None \<Rightarrow> c0);
                                 c2 = c1\<lparr>requestsIssued := Suc (requestsIssued c1)\<rparr>
                             in case requestRes i of
                                  Inl e \<Rightarrow>
                                    Inl (send_response c2
                                           (0, Some (Failure ''Unable to issue read request'')), None)
                                | Inr r \<Rightarrow> Inr (c2, r))) of
                  Inl s \<Rightarrow> Some (Return s)
                | Inr (c3, r) \<Rightarrow>
                    (case Body_Read r of ((d, err), r1) \<Rightarrow>
                       (let n = length d;
                            c4 = (if n > 0 then markActive c3 (now i) else c3);
                            hitEOFUpstream = (Header_Get (h_header r1) X_ENPROXY_EOF = ''true'');
                            errToClient = (if err = Some EOF \<and> \<not> hitEOFUpstream then None else err);
                            c5 = send_response c4 (n, errToClient)
                        in case err of
                             None \<Rightarrow> Some (Continue (c5, Some r1))
                           | Some e \<Rightarrow>
                               if e = EOF then
                                 (if hitEOFUpstream then Some (Return (c5, None))
                                  else Some (Continue (c5, None)))
                               else Some (Return (c5, Some r1))))))
      | RecvStopRead \<Rightarrow>
          (if stopReadCh c = 0 then None
           else Some (Return (c\<lparr>stopReadCh := stopReadCh c - 1\<rparr>, resp)))
      | TimeAfter \<Rightarrow>
          (if isIdle c (now i) then Some (Return (c, resp)) else Some (Continue (c, resp))))"

declare processReads_pass.simps [simp del]

text \<open>
  \<open>cleanupAfterReads\<close>. While both channels have something to receive the \<open>select\<close>
  may take either case; \<open>pick\<close> lists its choices (\<open>True\<close> for the read request), and
  the read request is taken once the list is used up.
\<close>

function cleanupAfterReads_loop :: "bool list \<Rightarrow> Conn \<Rightarrow> Conn" where
  "cleanupAfterReads_loop pick c =
     (case readRequestsCh c of
        [] \<Rightarrow>
          (if stopReadCh c = 0 then c\<lparr>readRequestsCh_closed := True\<rparr>
           else cleanupAfterReads_loop pick (c\<lparr>stopReadCh := stopReadCh c - 1\<rparr>))
      | b # bs \<Rightarrow>
          (if stopReadCh c \<noteq> 0 \<and> (case pick of [] \<Rightarrow> False | x # xs \<Rightarrow> \<not> x)
           then cleanupAfterReads_loop (tl pick) (c\<lparr>stopReadCh := stopReadCh c - 1\<rparr>)
           else cleanupAfterReads_loop (tl pick)
                  (send_response (c\<lparr>readRequestsCh := bs\<rparr>) (0, Some EOF))))"
  by pat_completeness auto
termination
  by (relation "measure (\<lambda>(pick, c). length (readRequestsCh c) + stopReadCh c)")
     (auto simp: send_response_def)

declare cleanupAfterReads_loop.simps [simp del]

definition cleanupAfterReads ::
  "bool list \<Rightarrow> Conn \<Rightarrow> httpResponse option \<Rightarrow> Conn \<times> httpResponse option" where
  "cleanupAfterReads pick c resp =
     (cleanupAfterReads_loop pick (c\<lparr>doneReading := True\<rparr>), map_option Body_Close resp)"

text \<open>
  The loop of \<open>processReads\<close> over the passes the surroundings allow; when they are
  used up the loop is still waiting in its \<open>select\<close> and has not returned (\<open>None\<close>).
\<close>

fun processReads_loop ::
  "pass_input list \<Rightarrow> Conn \<times> httpResponse option \<Rightarrow> (Conn \<times> httpResponse option) option" where
  "processReads_loop [] st = None"
| "processReads_loop (i # is) st =
     (case processReads_pass i st of
        None \<Rightarrow> None
      | Some (Return st1) \<Rightarrow> Some st1
      | Some (Continue st1) \<Rightarrow> processReads_loop is st1)"

text \<open>
  \<open>processReads\<close>: \<open>dialErr0\<close> is the error of \<open>dialProxy\<close> and \<open>initial\<close> the
  value received from \<open>initialResponseCh\<close> (its error and its response). The deferred
  \<open>cleanupAfterReads(resp)\<close> has its argument evaluated when the \<open>defer\<close> statement
  runs, where \<open>resp\<close> is still \<open>nil\<close>.
\<close>

definition processReads ::
  "error option \<Rightarrow> error option \<times> httpResponse option \<Rightarrow> pass_input list \<Rightarrow> bool list \<Rightarrow>
     Conn \<Rightarrow> Conn option" where
  "processReads dialErr0 initial passes pick c =
     (if dialErr0 \<noteq> None then Some (fst (cleanupAfterReads pick c None))
      else if fst initial \<noteq> None then Some (fst (cleanupAfterReads pick c None))
      else case processReads_loop passes (c, snd initial) of
             None \<Rightarrow> None
           | Some (c1, resp1) \<Rightarrow> Some (fst (cleanupAfterReads pick c1 None)))"

section \<open>Notions used in the statements about the client\<close>

text \<open>The state a pass leaves behind, whether the loop goes on or returns.\<close>

fun step_state :: "'a loop_step \<Rightarrow> 'a" where
  "step_state (Continue s) = s"
| "step_state (Return s) = s"


text \<open>
  The operations of the sources on a connection, and runs of them: a call of
  \<open>submitRead\<close>, a pass of the read loop, a call of \<open>cleanupAfterReads\<close>.
\<close>

datatype conn_op = SubmitRead nat | Pass pass_input | Cleanup "bool list"

fun apply_op :: "conn_op \<Rightarrow> Conn \<times> httpResponse option \<Rightarrow> Conn \<times> httpResponse option" where
  "apply_op (SubmitRead b) (c, resp) =
     (case submitRead c b of None \<Rightarrow> (c, resp) | Some (c1, ok) \<Rightarrow> (c1, resp))"
| "apply_op (Pass i) st = (case processReads_pass i st of None \<Rightarrow> st | Some x \<Rightarrow> step_state x)"
| "apply_op (Cleanup pick) (c, resp) = cleanupAfterReads pick c resp"

fun run_ops :: "conn_op list \<Rightarrow> Conn \<times> httpResponse option \<Rightarrow> Conn \<times> httpResponse option" where
  "run_ops [] st = st"
| "run_ops (x # xs) st = run_ops xs (apply_op x st)"

text \<open>Concrete connections and responses.\<close>

definition conn0 :: Conn where
  "conn0 = \<lparr>Config_IdleTimeout = 70 * Second, doneReading = False, readRequestsCh = [16],
     readRequestsCh_closed = False, readResponsesCh = [], stopReadCh = 0, closed = False,
     lastActivityTime = 0, requestsIssued = 0\<rparr>"

definition hresp_plain :: httpResponse where
  "hresp_plain = \<lparr>h_header = Map.empty, h_body = [(''hi'', Some EOF)], h_closed = False\<rparr>"


definition pass_read :: "time \<Rightarrow> pass_input" where
  "pass_read t = \<lparr>now = t, sel = RecvReadRequest, redialErr = None, requestRes = Inr hresp_plain\<rparr>"

fun getLazyConns :: "Proxy \<Rightarrow> (string \<times> string) list \<Rightarrow> Proxy" where
  "getLazyConns p [] = p"
| "getLazyConns p ((k, a) # cs) = getLazyConns (fst (getLazyConn p k a)) cs"

definition dialed_if_EOF :: "Proxy \<Rightarrow> bool" where
  "dialed_if_EOF p =
     (\<forall>cid lc. connMap p cid = Some lc \<longrightarrow> hitEOF lc \<longrightarrow> connOut lc \<noteq> None \<and> dialErr lc = None)"

definition sock0 :: sock where
  "sock0 = \<lparr>inbound = [], outbound = [], wcap = None, readDeadline = None, sclosed = False, reads = 0\<rparr>"

definition sock_hi :: sock where
  "sock_hi = sock0\<lparr>inbound := [(0, ''hi'', Some EOF)]\<rparr>"

definition proxy0 :: Proxy where
  "proxy0 = \<lparr>Dial = (\<lambda>a. Inr sock0), Host = [], FlushInterval = 50000000, IdleInterval = 10000000,
     IdleTimeout = 70 * Second, BufferSize = 8096, connMap = Map.empty, clock = 0, dialed = []\<rparr>"

definition resp0 :: response where
  "resp0 = \<lparr>header = Map.empty, wrote = None, rbody = [], flushed = 0, rcap = None\<rparr>"

definition req0 :: "string \<Rightarrow> request" where
  "req0 m = \<lparr>rmethod = m, rheader = [X_HTTPCONN_ID \<mapsto> ''abc'', X_HTTPCONN_DEST_ADDR \<mapsto> ''example.com:80''], rqbody = []\<rparr>"

definition proxy_hi :: Proxy where
  "proxy_hi = proxy0\<lparr>Dial := (\<lambda>a. Inr sock_hi)\<rparr>"

definition sock_eof :: sock where
  "sock_eof = sock0\<lparr>inbound := [(0, [], Some EOF)], readDeadline := Some (30 * Second), reads := 2\<rparr>"

definition lc_eof :: lazyConn where
  "lc_eof = (newLazyConn ''abc'' ''example.com:80'')\<lparr>connOut := Some sock_eof, hitEOF := True\<rparr>"

definition proxy_eof :: Proxy where
  "proxy_eof = proxy_hi\<lparr>connMap := [''abc'' \<mapsto> lc_eof], dialed := [''example.com:80'']\<rparr>"

definition resp_hi :: response where
  "resp_hi = resp0\<lparr>header := [''X-Accel-Buffering'' \<mapsto> ''no''],
       wrote := Some (200, [''X-Accel-Buffering'' \<mapsto> ''no'']), rbody := ''hi''\<rparr>"

definition resp_eof :: response where
  "resp_eof = resp0\<lparr>header := [X_HTTPCONN_EOF \<mapsto> ''true''],
       wrote := Some (200, [X_HTTPCONN_EOF \<mapsto> ''true''])\<rparr>"



definition req_noid :: request where
  "req_noid = \<lparr>rmethod = ''GET'', rheader = [X_HTTPCONN_DEST_ADDR \<mapsto> ''example.com:80''], rqbody = []\<rparr>"

definition lc_dialed :: lazyConn where
  "lc_dialed = (newLazyConn ''abc'' ''example.com:80'')\<lparr>connOut := Some sock0\<rparr>"

definition proxy_put :: Proxy where
  "proxy_put = proxy0\<lparr>connMap := [''abc'' \<mapsto> lc_dialed], dialed := [''example.com:80'']\<rparr>"

definition resp_502 :: response where
  "resp_502 = resp0\<lparr>wrote := Some (502, Map.empty)\<rparr>"

text \<open>
  How the record of a connection may change over one request: the EOF flag is not
  cleared, a dialed socket stays, and a flag that is newly set comes with a dialed socket.
\<close>

definition lc_evolves :: "lazyConn \<Rightarrow> lazyConn \<Rightarrow> bool" where
  "lc_evolves a b =
     ((hitEOF a \<longrightarrow> hitEOF b) \<and>
      (connOut a \<noteq> None \<and> dialErr a = None \<longrightarrow> connOut b \<noteq> None \<and> dialErr b = None) \<and>
      (hitEOF b \<and> \<not> hitEOF a \<longrightarrow> connOut b \<noteq> None \<and> dialErr b = None))"

definition mlw0 :: maxLatencyWriter where
  "mlw0 = \<lparr>dst = resp0\<lparr>wrote := Some (200, Map.empty)\<rparr>, latency = 50000000, nextTick = 50000000,
            running = True\<rparr>"

definition mlw_ab :: maxLatencyWriter where
  "mlw_ab = mlw0\<lparr>dst := (dst mlw0)\<lparr>rbody := ''ab''\<rparr>\<rparr>"

text \<open>
  What a request body carries: the bytes its reads deliver up to the first error, and that
  error (\<open>io.EOF\<close> for a body that ends well). A socket accepts \<open>n\<close> bytes when it
  is open and its writes do not fail before \<open>n\<close> more bytes are written.
\<close>

fun body_bytes :: "(bytes \<times> error option) list \<Rightarrow> bytes" where
  "body_bytes [] = []"
| "body_bytes ((d, None) # rest) = d @ body_bytes rest"
| "body_bytes ((d, Some e) # rest) = d"

fun body_err :: "(bytes \<times> error option) list \<Rightarrow> error" where
  "body_err [] = EOF"
| "body_err ((d, None) # rest) = body_err rest"
| "body_err ((d, Some e) # rest) = e"

definition accepts :: "sock \<Rightarrow> nat \<Rightarrow> bool" where
  "accepts s n = (\<not> sclosed s \<and> (case wcap s of None \<Rightarrow> True | Some k \<Rightarrow> n \<le> k))"

definition post_req :: request where
  "post_req = (req0 ''POST'')\<lparr>rqbody := [(''GET / '', None), (''HTTP/1.0'', Some EOF)]\<rparr>"

text \<open>
  Nothing becomes available on the socket by the deadline \<open>dl\<close>; and the socket after
  one \<open>Read\<close> under that deadline has timed out.
\<close>

definition silent_until :: "sock \<Rightarrow> time \<Rightarrow> bool" where
  "silent_until c dl = (case inbound c of [] \<Rightarrow> True | (t, d, e) # rest \<Rightarrow> dl < t)"

definition timed_out :: "sock \<Rightarrow> time \<Rightarrow> sock" where
  "timed_out c dl = c\<lparr>readDeadline := Some dl, reads := Suc (reads c)\<rparr>"




















section \<open>The client's read loop: EOF suppression, idle shutdown, the end of reading\<close>











text \<open>
  A pass that finds the connection idle with no response in hand returns at once: the
  submission it has received is dropped and nothing is sent for it.
\<close>

lemma idle_pass_drops_submission:
  assumes "\<not> isClosed c" and "sel i = RecvReadRequest" and "readRequestsCh c = b # bs"
      and "isIdle c (now i)"
  shows "processReads_pass i (c, None) = Some (Return (c\<lparr>readRequestsCh := bs\<rparr>, None))"
  using assms by (simp add: processReads_pass.simps Let_def isIdle_def)

text \<open>
  C7. The connection \<open>conn0\<close> has one pending read submission and has been idle for
  exactly its IdleTimeout. The read loop takes the submission, finds no response in hand
  and the connection idle, and returns; \<open>cleanupAfterReads\<close> then finds the channel
  empty. No request was issued, and no response at all was sent: the caller that made the
  submission is not told \<open>io.EOF\<close>.
\<close>

theorem idle_submission_gets_no_response:
  "processReads None (None, None) [pass_read (70 * Second)] [] conn0 =
     Some (conn0\<lparr>doneReading := True, readRequestsCh := [], readRequestsCh_closed := True\<rparr>) \<and>
   readRequestsCh conn0 = [16] \<and> readResponsesCh conn0 = [] \<and>
   isIdle conn0 (now (pass_read (70 * Second)))"
  by (simp add: processReads_def processReads_pass.simps cleanupAfterReads_def isClosed_def isIdle_def
        cleanupAfterReads_loop.simps conn0_def pass_read_def Second_def Let_def)

lemma cleanup_loop_result:
  "cleanupAfterReads_loop pick c =
     c\<lparr>readRequestsCh := [], stopReadCh := 0, readRequestsCh_closed := True,
       readResponsesCh := readResponsesCh c @ replicate (length (readRequestsCh c)) (0, Some EOF)\<rparr>"
proof (induction pick c rule: cleanupAfterReads_loop.induct)
  case (1 pick c)
  show ?case
  proof (cases "readRequestsCh c")
    case Nil
    then show ?thesis
      using "1.IH"(1) by (subst cleanupAfterReads_loop.simps) (auto simp: )
  next
    case (Cons b bs)
    then show ?thesis
      using "1.IH"(2,3)
      by (subst cleanupAfterReads_loop.simps) (auto simp: send_response_def replicate_append_same)
  qed
qed

lemma pass_doneReading:
  "processReads_pass i (c, resp) = Some x \<Longrightarrow> doneReading (fst (step_state x)) = doneReading c"
  by (auto simp: processReads_pass.simps Let_def send_response_def markActive_def
           split: if_splits select_case.splits list.splits option.splits sum.splits prod.splits)

lemma apply_op_doneReading:
  "doneReading (fst st) \<Longrightarrow> doneReading (fst (apply_op x st))"
proof (cases x)
  case (SubmitRead b)
  then show "doneReading (fst st) \<Longrightarrow> ?thesis"
    by (cases st) (auto simp: submitRead_def)
next
  case (Pass i)
  then show "doneReading (fst st) \<Longrightarrow> ?thesis"
    by (cases st) (auto simp: pass_doneReading split: option.splits)
next
  case (Cleanup pick)
  then show "doneReading (fst st) \<Longrightarrow> ?thesis"
    by (cases st) (auto simp: cleanupAfterReads_def cleanup_loop_result)
qed

lemma run_ops_doneReading:
  "doneReading (fst st) \<Longrightarrow> doneReading (fst (run_ops ops st))"
  by (induction ops arbitrary: st) (auto simp: apply_op_doneReading)

text \<open>
  C10. \<open>cleanupAfterReads\<close> sets \<open>doneReading\<close>, answers every submission still
  pending with zero bytes and \<open>io.EOF\<close>, and leaves the channel empty; after it, whatever
  calls of \<open>submitRead\<close>, passes of the read loop and calls of \<open>cleanupAfterReads\<close>
  follow, \<open>doneReading\<close> stays set and \<open>submitRead\<close> returns false and leaves the
  connection, its channel included, as it is.
\<close>

theorem doneReading_permanent:
  "doneReading (fst (cleanupAfterReads pick c resp)) \<and>
   readResponsesCh (fst (cleanupAfterReads pick c resp)) =
     readResponsesCh c @ replicate (length (readRequestsCh c)) (0, Some EOF) \<and>
   readRequestsCh (fst (cleanupAfterReads pick c resp)) = [] \<and>
   (\<forall>ops b. doneReading (fst (run_ops ops (cleanupAfterReads pick c resp))) \<and>
            submitRead (fst (run_ops ops (cleanupAfterReads pick c resp))) b =
              Some (fst (run_ops ops (cleanupAfterReads pick c resp)), False))"
proof -
  have d: "doneReading (fst (cleanupAfterReads pick c resp))"
    by (simp add: cleanupAfterReads_def cleanup_loop_result)
  have "\<And>ops. doneReading (fst (run_ops ops (cleanupAfterReads pick c resp)))"
    using d by (rule run_ops_doneReading)
  then show ?thesis
    by (simp add: submitRead_def) (simp add: cleanupAfterReads_def cleanup_loop_result)
qed

lemma getLazyConn_existing: "connMap p cid = Some l \<Longrightarrow> getLazyConn p cid addr = (p, l)"
  by (simp add: getLazyConn_def)

lemma getLazyConn_keeps: "connMap p cid = Some l \<Longrightarrow> connMap (fst (getLazyConn p k a)) cid = Some l"
  by (auto simp: getLazyConn_def Let_def split: option.splits)

lemma getLazyConns_keeps: "connMap p cid = Some l \<Longrightarrow> connMap (getLazyConns p cs) cid = Some l"
  by (induction p cs rule: getLazyConns.induct) (auto simp: getLazyConn_keeps)

section \<open>The server: one LazyConn per id\<close>

text \<open>
  C9. \<open>getLazyConn\<close> leaves the LazyConn it returns under the id; the LazyConn is the
  one that was there, and the map is unchanged, or a new one when the id had no entry; no
  other id is touched; and after any further calls of \<open>getLazyConn\<close>, for whatever ids
  and addresses, a call with that id returns that same LazyConn, whatever address it is
  given.
\<close>

theorem getLazyConn_idempotent:
  assumes "getLazyConn p cid addr = (p1, l)"
  shows "connMap p1 cid = Some l \<and>
         (case connMap p cid of None \<Rightarrow> l = newLazyConn cid addr | Some l0 \<Rightarrow> l = l0 \<and> p1 = p) \<and>
         (\<forall>k. k \<noteq> cid \<longrightarrow> connMap p1 k = connMap p k) \<and>
         (\<forall>cs addr1. getLazyConn (getLazyConns p1 cs) cid addr1 = (getLazyConns p1 cs, l))"
proof -
  have a: "connMap p1 cid = Some l"
    using assms by (auto simp: getLazyConn_def Let_def split: option.splits)
  have b: "case connMap p cid of None \<Rightarrow> l = newLazyConn cid addr | Some l0 \<Rightarrow> l = l0 \<and> p1 = p"
    using assms by (auto simp: getLazyConn_def Let_def split: option.splits)
  have c: "\<forall>k. k \<noteq> cid \<longrightarrow> connMap p1 k = connMap p k"
    using assms by (auto simp: getLazyConn_def Let_def split: option.splits)
  have d: "\<forall>cs addr1. getLazyConn (getLazyConns p1 cs) cid addr1 = (getLazyConns p1 cs, l)"
    using getLazyConns_keeps[OF a] by (simp add: getLazyConn_existing)
  show ?thesis using a b c d by blast
qed

theorem getLazyConn_idempotent_witness:
  "connMap (fst (getLazyConn proxy0 ''abc'' ''example.com:80'')) ''abc'' =
     Some (newLazyConn ''abc'' ''example.com:80'') \<and>
   snd (getLazyConn (getLazyConns (fst (getLazyConn proxy0 ''abc'' ''example.com:80''))
                       [(''xyz'', ''a:1''), (''abc'', ''b:2'')]) ''abc'' ''c:3'') =
     newLazyConn ''abc'' ''example.com:80''"
proof -
  have e: "getLazyConn proxy0 ''abc'' ''example.com:80'' =
      (fst (getLazyConn proxy0 ''abc'' ''example.com:80''), newLazyConn ''abc'' ''example.com:80'')"
    by (simp add: getLazyConn_def proxy0_def Let_def)
  from getLazyConn_idempotent[OF e]
  have a: "connMap (fst (getLazyConn proxy0 ''abc'' ''example.com:80'')) ''abc'' =
             Some (newLazyConn ''abc'' ''example.com:80'')"
    and d: "\<forall>cs addr1. getLazyConn (getLazyConns (fst (getLazyConn proxy0 ''abc'' ''example.com:80'')) cs) ''abc'' addr1 =
             (getLazyConns (fst (getLazyConn proxy0 ''abc'' ''example.com:80'')) cs,
              newLazyConn ''abc'' ''example.com:80'')"
    by blast+
  from d have "getLazyConn (getLazyConns (fst (getLazyConn proxy0 ''abc'' ''example.com:80''))
                       [(''xyz'', ''a:1''), (''abc'', ''b:2'')]) ''abc'' ''c:3'' =
             (getLazyConns (fst (getLazyConn proxy0 ''abc'' ''example.com:80''))
                       [(''xyz'', ''a:1''), (''abc'', ''b:2'')],
              newLazyConn ''abc'' ''example.com:80'')"
    by blast
  with a show ?thesis by (simp del: getLazyConns.simps)
qed

section \<open>The streaming server: GET after EOF, and requests it rejects\<close>

lemma lazyConn_get_Inr:
  "lazyConn_get p l = (Inr c, l1, ds) \<Longrightarrow> dialErr l1 = None \<and> connOut l1 = Some c \<and> hitEOF l1 = hitEOF l"
  by (auto simp: lazyConn_get_def split: option.splits sum.splits)

lemma lazyConn_get_Inl:
  "lazyConn_get p l = (Inl e, l1, ds) \<Longrightarrow> hitEOF l1 = hitEOF l \<and> connOut l1 = connOut l \<and> (dialErr l = None \<longrightarrow> connOut l = None)"
  by (auto simp: lazyConn_get_def split: option.splits sum.splits)

lemma lazyConn_get_dialed:
  "dialErr l = None \<Longrightarrow> connOut l = Some c \<Longrightarrow> lazyConn_get p l = (Inr c, l, [])"
  by (simp add: lazyConn_get_def)

lemma streaming_GET_after_EOF:
  assumes "connMap p cid = Some lc" and "hitEOF lc" and "connOut lc = Some c" and "dialErr lc = None"
      and "Header_Get (rheader req) X_HTTPCONN_ID = cid" and "cid \<noteq> []"
      and "Header_Get (rheader req) X_HTTPCONN_DEST_ADDR \<noteq> []" and "rmethod req = ''GET''"
  shows "ServeHTTP_streaming eb p resp req =
           Some (p, WriteHeader (Header_Set resp X_HTTPCONN_EOF ''true'') 200)"
proof -
  have g: "getLazyConn p cid (Header_Get (rheader req) X_HTTPCONN_DEST_ADDR) = (p, lc)"
    using assms(1) by (rule getLazyConn_existing)
  have l: "lazyConn_get p lc = (Inr c, lc, [])"
    using assms(4,3) by (rule lazyConn_get_dialed)
  have m: "(connMap p)(cid \<mapsto> lc) = connMap p"
    using assms(1) by (rule map_upd_triv)
  show ?thesis
    using assms(2,5,6,7,8) g l m
    by (simp add: ServeHTTP_streaming_def Let_def handleGET_def)
qed

lemmas ex_defs = proxy_hi_def proxy0_def sock_hi_def sock0_def resp0_def req0_def sock_eof_def lc_eof_def
  proxy_eof_def resp_hi_def resp_eof_def

lemma first_GET_hi:
  "ServeHTTP_streaming 1 proxy_hi resp0 (req0 ''GET'') = Some (proxy_eof, resp_hi)"
  by (simp add: ServeHTTP_streaming_def handleGET_def io_Copy_from_sock.simps sock_Read_def sock_Read_into_def
        SetReadDeadline_def mlw_Write_def resp_Write_def WriteHeader_def Header_Set_def flushLoop_until_def
        mlw_stop_def getLazyConn_def lazyConn_get_def newLazyConn_def Header_Get_def Let_def
        X_HTTPCONN_ID_def X_HTTPCONN_DEST_ADDR_def Second_def numeral_2_eq_2 ex_defs)

lemma later_GET_hi:
  "ServeHTTP_streaming 1 proxy_eof resp0 (req0 ''GET'') = Some (proxy_eof, resp_eof)"
  by (simp add: ServeHTTP_streaming_def handleGET_def 
         WriteHeader_def Header_Set_def 
         getLazyConn_def lazyConn_get_def newLazyConn_def Header_Get_def Let_def
        X_HTTPCONN_ID_def X_HTTPCONN_DEST_ADDR_def Second_def numeral_2_eq_2 ex_defs)

text \<open>
  C4. A GET for an id whose LazyConn has the EOF flag set (and, as it then has, a dialed
  socket) is answered with status 200, the EOF header \<open>true\<close> and nothing added to the
  body; the proxy, and with it the socket and its count of reads, is left as it was.
\<close>

theorem GET_after_EOF_short_circuits:
  assumes "connMap p cid = Some lc" and "hitEOF lc" and "connOut lc = Some c" and "dialErr lc = None"
      and "Header_Get (rheader req) X_HTTPCONN_ID = cid" and "cid \<noteq> []"
      and "Header_Get (rheader req) X_HTTPCONN_DEST_ADDR \<noteq> []" and "rmethod req = ''GET''"
      and "wrote resp = None"
  shows "\<exists>r. ServeHTTP_streaming eb p resp req = Some (p, r) \<and>
             handleGET eb p resp req lc c = Some (p, r, lc) \<and>
             status r = Some 200 \<and> sent_header r X_HTTPCONN_EOF = ''true'' \<and>
             rbody r = rbody resp"
proof -
  let ?r = "WriteHeader (Header_Set resp X_HTTPCONN_EOF ''true'') 200"
  have "ServeHTTP_streaming eb p resp req = Some (p, ?r)"
    using assms(1-8) by (rule streaming_GET_after_EOF)
  moreover have "handleGET eb p resp req lc c = Some (p, ?r, lc)"
    using assms(2) by (simp add: handleGET_def)
  moreover have "status ?r = Some 200 \<and> sent_header ?r X_HTTPCONN_EOF = ''true'' \<and> rbody ?r = rbody resp"
    using assms(9)
    by (simp add: status_def sent_header_def WriteHeader_def Header_Set_def Header_Get_def)
  ultimately show ?thesis by blast
qed

theorem GET_after_EOF_short_circuits_witness:
  "ServeHTTP_streaming 1 proxy_eof resp0 (req0 ''GET'') = Some (proxy_eof, resp_eof) \<and>
   status resp_eof = Some 200 \<and> sent_header resp_eof X_HTTPCONN_EOF = ''true'' \<and> rbody resp_eof = []"
proof -
  have a: "connMap proxy_eof ''abc'' = Some lc_eof" "hitEOF lc_eof" "connOut lc_eof = Some sock_eof"
          "dialErr lc_eof = None" "Header_Get (rheader (req0 ''GET'')) X_HTTPCONN_ID = ''abc''"
          "''abc'' \<noteq> []" "Header_Get (rheader (req0 ''GET'')) X_HTTPCONN_DEST_ADDR \<noteq> []"
          "rmethod (req0 ''GET'') = ''GET''" "wrote resp0 = None"
    by (simp_all add: ex_defs newLazyConn_def Header_Get_def X_HTTPCONN_ID_def X_HTTPCONN_DEST_ADDR_def)
  from GET_after_EOF_short_circuits[OF a]
  obtain r where r: "ServeHTTP_streaming 1 proxy_eof resp0 (req0 ''GET'') = Some (proxy_eof, r)"
    "status r = Some 200" "sent_header r X_HTTPCONN_EOF = ''true''" "rbody r = rbody resp0"
    by blast
  have "r = resp_eof" using r(1) later_GET_hi by simp
  then show ?thesis using r by (simp add: resp0_def)
qed

text \<open>
  The hypothesis of a dialed socket holds wherever the flag is set: the records of the map
  only change as \<open>lc_evolves\<close> allows, so \<open>dialed_if_EOF\<close>, true of the empty map,
  and \<open>eof_marked\<close> are kept by every request.
\<close>

lemma getLazyConn_cases:
  "getLazyConn p cid addr = (p1, lc) \<Longrightarrow>
     (connMap p cid = Some lc \<and> p1 = p) \<or>
     (connMap p cid = None \<and> lc = newLazyConn cid addr \<and> p1 = p\<lparr>connMap := (connMap p)(cid \<mapsto> lc)\<rparr>)"
  by (auto simp: getLazyConn_def Let_def split: option.splits)

lemma lazyConn_get_evolves:
  "lazyConn_get p l = (got, l1, ds) \<Longrightarrow> lc_evolves l l1 \<and> hitEOF l1 = hitEOF l"
  by (auto simp: lazyConn_get_def lc_evolves_def split: option.splits sum.splits)

lemma handleGET_evolves:
  assumes "handleGET eb p resp req lc c = Some (p1, r, lc1)" and "connOut lc = Some c" and "dialErr lc = None"
  shows "connMap p1 = connMap p \<and> lc_evolves lc lc1 \<and> connOut lc1 \<noteq> None \<and> dialErr lc1 = None"
proof (cases "hitEOF lc")
  case True
  then show ?thesis using assms by (simp add: handleGET_def lc_evolves_def)
next
  case False
  then have "connMap p1 = connMap p \<and> dialErr lc1 = dialErr lc \<and> connOut lc1 \<noteq> None"
    using assms(1) by (auto simp: handleGET_def Let_def split: if_splits option.splits)
  then show ?thesis using assms(3) False by (simp add: lc_evolves_def)
qed

lemma lc_evolves_trans: "lc_evolves a b \<Longrightarrow> lc_evolves b c \<Longrightarrow> lc_evolves a c"
  unfolding lc_evolves_def by blast

lemma ServeHTTP_streaming_map:
  assumes "ServeHTTP_streaming eb p resp req = Some (p1, r)"
  shows "connMap p1 = connMap p \<or>
         (\<exists>lc lc1. (connMap p (Header_Get (rheader req) X_HTTPCONN_ID) = Some lc \<or>
                     connMap p (Header_Get (rheader req) X_HTTPCONN_ID) = None \<and> \<not> hitEOF lc) \<and>
                    connMap p1 = (connMap p)(Header_Get (rheader req) X_HTTPCONN_ID \<mapsto> lc1) \<and>
                    lc_evolves lc lc1)"
proof -
  let ?cid = "Header_Get (rheader req) X_HTTPCONN_ID"
  let ?addr = "Header_Get (rheader req) X_HTTPCONN_DEST_ADDR"
  show ?thesis
  proof (cases "?cid = [] \<or> ?addr = []")
    case True
    then have "p1 = p" using assms by (auto simp: ServeHTTP_streaming_def Let_def split: if_splits)
    then show ?thesis by simp
  next
    case False
    obtain pa lc where g: "getLazyConn p ?cid ?addr = (pa, lc)" by (metis prod.exhaust)
    obtain got lc1 ds where l: "lazyConn_get pa lc = (got, lc1, ds)" by (metis prod.exhaust)
    have lcs: "connMap p ?cid = Some lc \<or> connMap p ?cid = None \<and> \<not> hitEOF lc"
      using getLazyConn_cases[OF g] by (auto simp: newLazyConn_def)
    have m: "(connMap pa)(?cid \<mapsto> x) = (connMap p)(?cid \<mapsto> x)" for x
      using getLazyConn_cases[OF g] by auto
    have e1: "lc_evolves lc lc1"
      using lazyConn_get_evolves[OF l] by simp
    define p2 where "p2 = pa\<lparr>connMap := (connMap pa)(?cid \<mapsto> lc1), dialed := dialed pa @ ds\<rparr>"
    have p2m: "connMap p2 = (connMap p)(?cid \<mapsto> lc1)" by (simp add: p2_def m)
    have unfold: "ServeHTTP_streaming eb p resp req =
        (case got of
           Inl err \<Rightarrow> Some (p2, badGateway_streaming resp ''Unable to get connOut'')
         | Inr c \<Rightarrow>
             if rmethod req = ''POST'' then
               (case handlePOST resp req c of (resp1, c1) \<Rightarrow>
                  Some (p2\<lparr>connMap := (connMap p2)(?cid \<mapsto> lc1\<lparr>connOut := Some c1\<rparr>)\<rparr>, resp1))
             else if rmethod req = ''GET'' then
               (case handleGET eb p2 resp req lc1 c of
                  None \<Rightarrow> None
                | Some (p3, resp1, lc2) \<Rightarrow> Some (p3\<lparr>connMap := (connMap p3)(?cid \<mapsto> lc2)\<rparr>, resp1))
             else Some (p2, badGateway_streaming resp ''Method not supported''))"
      using False g l by (simp add: ServeHTTP_streaming_def Let_def p2_def split: sum.splits prod.splits option.splits)
    have "\<exists>lc2. connMap p1 = (connMap p)(?cid \<mapsto> lc2) \<and> lc_evolves lc lc2"
    proof (cases got)
      case (Inl e)
      then have "p1 = p2" using assms unfold by simp
      then show ?thesis using p2m e1 by blast
    next
      case (Inr c)
      have c: "connOut lc1 = Some c" "dialErr lc1 = None"
        using l Inr lazyConn_get_Inr by blast+
      consider (post) "rmethod req = ''POST''" | (get) "rmethod req \<noteq> ''POST''" "rmethod req = ''GET''"
        | (other) "rmethod req \<noteq> ''POST''" "rmethod req \<noteq> ''GET''" by blast
      then show ?thesis
      proof cases
        case post
        let ?l = "lc1\<lparr>connOut := Some (snd (handlePOST resp req c))\<rparr>"
        have "p1 = p2\<lparr>connMap := (connMap p2)(?cid \<mapsto> ?l)\<rparr>"
          using assms unfold Inr post by (simp split: prod.splits)
        then have "connMap p1 = (connMap p)(?cid \<mapsto> ?l)" by (simp add: p2m)
        moreover have "lc_evolves lc1 ?l" using c by (simp add: lc_evolves_def)
        ultimately show ?thesis using lc_evolves_trans[OF e1] by blast
      next
        case get
        then obtain p3 lc2 where h: "handleGET eb p2 resp req lc1 c = Some (p3, r, lc2)"
           and p1: "p1 = p3\<lparr>connMap := (connMap p3)(?cid \<mapsto> lc2)\<rparr>"
          using assms unfold Inr by (auto split: option.splits)
        have "connMap p1 = (connMap p)(?cid \<mapsto> lc2)"
          using handleGET_evolves[OF h c] p1 p2m by simp
        moreover have "lc_evolves lc1 lc2" using handleGET_evolves[OF h c] by simp
        ultimately show ?thesis using lc_evolves_trans[OF e1] by blast
      next
        case other
        then have "p1 = p2" using assms unfold Inr by simp
        then show ?thesis using p2m e1 by blast
      qed
    qed
    then show ?thesis using lcs by blast
  qed
qed


lemma dialed_if_EOF_preserved:
  assumes "ServeHTTP_streaming eb p resp req = Some (p1, r)" and "dialed_if_EOF p"
  shows "dialed_if_EOF p1"
proof -
  let ?k = "Header_Get (rheader req) X_HTTPCONN_ID"
  from ServeHTTP_streaming_map[OF assms(1)]
  consider (same) "connMap p1 = connMap p"
    | (upd) lc lc1 where "connMap p ?k = Some lc \<or> connMap p ?k = None \<and> \<not> hitEOF lc"
        "connMap p1 = (connMap p)(?k \<mapsto> lc1)" "lc_evolves lc lc1"
    by blast
  then show ?thesis
  proof cases
    case same
    then show ?thesis using assms(2) by (simp add: dialed_if_EOF_def)
  next
    case upd
    have old: "hitEOF lc \<longrightarrow> connOut lc \<noteq> None \<and> dialErr lc = None"
      using upd(1) assms(2) unfolding dialed_if_EOF_def by blast
    have new: "hitEOF lc1 \<longrightarrow> connOut lc1 \<noteq> None \<and> dialErr lc1 = None"
      using old upd(3) unfolding lc_evolves_def by blast
    show ?thesis
      unfolding dialed_if_EOF_def
    proof (intro allI impI)
      fix cid l
      assume a: "connMap p1 cid = Some l" and h: "hitEOF l"
      show "connOut l \<noteq> None \<and> dialErr l = None"
      proof (cases "cid = ?k")
        case True
        then have "l = lc1" using a upd(2) by simp
        then show ?thesis using new h by simp
      next
        case False
        then have "connMap p cid = Some l" using a upd(2) by simp
        then show ?thesis using assms(2) h unfolding dialed_if_EOF_def by blast
      qed
    qed
  qed
qed


text \<open>
  C5, as stated, fails for the unsupported method: a PUT that carries both headers gets
  its 502, but only after the LazyConn was entered into the map and its socket dialed.
\<close>

theorem unsupported_method_creates_state:
  "ServeHTTP_streaming 1 proxy0 resp0 (req0 ''PUT'') = Some (proxy_put, resp_502) \<and>
   connMap proxy0 ''abc'' = None \<and> connMap proxy_put ''abc'' = Some lc_dialed \<and>
   dialed proxy0 = [] \<and> dialed proxy_put = [''example.com:80'']"
  by (simp add: ServeHTTP_streaming_def badGateway_streaming_def BAD_GATEWAY_def WriteHeader_def
        getLazyConn_def lazyConn_get_def newLazyConn_def Header_Get_def Let_def
        X_HTTPCONN_ID_def X_HTTPCONN_DEST_ADDR_def ex_defs req_noid_def lc_dialed_def proxy_put_def resp_502_def)

text \<open>
  C5, amended. A request without the Connection-Id header or without the
  Destination-Address header is answered with status 502 and the proxy is left as it was
  (no entry, no dial); a request whose method is neither POST nor GET is answered with
  status 502.
\<close>

theorem ServeHTTP_streaming_rejects:
  assumes "wrote resp = None"
  shows "(Header_Get (rheader req) X_HTTPCONN_ID = [] \<or>
          Header_Get (rheader req) X_HTTPCONN_DEST_ADDR = [] \<longrightarrow>
            ServeHTTP_streaming eb p resp req = Some (p, WriteHeader resp BAD_GATEWAY)) \<and>
         (rmethod req \<noteq> ''POST'' \<and> rmethod req \<noteq> ''GET'' \<longrightarrow>
            (\<exists>p1. ServeHTTP_streaming eb p resp req = Some (p1, WriteHeader resp BAD_GATEWAY))) \<and>
         status (WriteHeader resp BAD_GATEWAY) = Some 502 \<and>
         rbody (WriteHeader resp BAD_GATEWAY) = rbody resp"
proof (intro conjI impI)
  assume "Header_Get (rheader req) X_HTTPCONN_ID = [] \<or> Header_Get (rheader req) X_HTTPCONN_DEST_ADDR = []"
  then show "ServeHTTP_streaming eb p resp req = Some (p, WriteHeader resp BAD_GATEWAY)"
    by (auto simp: ServeHTTP_streaming_def Let_def badGateway_streaming_def)
next
  assume "rmethod req \<noteq> ''POST'' \<and> rmethod req \<noteq> ''GET''"
  then show "\<exists>p1. ServeHTTP_streaming eb p resp req = Some (p1, WriteHeader resp BAD_GATEWAY)"
    by (auto simp: ServeHTTP_streaming_def Let_def badGateway_streaming_def split: prod.splits sum.splits)
next
  show "status (WriteHeader resp BAD_GATEWAY) = Some 502"
    using assms by (simp add: status_def WriteHeader_def BAD_GATEWAY_def)
next
  show "rbody (WriteHeader resp BAD_GATEWAY) = rbody resp"
    by (simp add: WriteHeader_def split: option.splits)
qed

theorem ServeHTTP_streaming_rejects_witness:
  "ServeHTTP_streaming 1 proxy0 resp0 req_noid = Some (proxy0, resp_502) \<and>
   (\<exists>p1. ServeHTTP_streaming 1 proxy0 resp0 (req0 ''PUT'') = Some (p1, resp_502)) \<and>
   status resp_502 = Some 502"
proof -
  have w: "wrote resp0 = None" by (simp add: resp0_def)
  have r: "WriteHeader resp0 BAD_GATEWAY = resp_502"
    by (simp add: WriteHeader_def BAD_GATEWAY_def resp0_def resp_502_def)
  have a: "Header_Get (rheader req_noid) X_HTTPCONN_ID = [] \<or>
           Header_Get (rheader req_noid) X_HTTPCONN_DEST_ADDR = []"
    by (simp add: req_noid_def Header_Get_def X_HTTPCONN_ID_def X_HTTPCONN_DEST_ADDR_def)
  have b: "rmethod (req0 ''PUT'') \<noteq> ''POST'' \<and> rmethod (req0 ''PUT'') \<noteq> ''GET''"
    by (simp add: req0_def)
  from ServeHTTP_streaming_rejects[OF w, of req_noid 1 proxy0] a r
  have 1: "ServeHTTP_streaming 1 proxy0 resp0 req_noid = Some (proxy0, resp_502)"
    and 3: "status resp_502 = Some 502" by auto
  from ServeHTTP_streaming_rejects[OF w, of "req0 ''PUT''" 1 proxy0] b r
  have 2: "\<exists>p1. ServeHTTP_streaming 1 proxy0 resp0 (req0 ''PUT'') = Some (p1, resp_502)" by auto
  show ?thesis using 1 2 3 by blast
qed

section \<open>The flush-paced writer: what stopping does\<close>

text \<open>
  C8, as stated, fails for the final flush: two bytes are written and the writer is
  stopped before its first tick; the stopped writer's destination still has nothing
  flushed.
\<close>

theorem stop_does_not_flush:
  "mlw_Write mlw0 ''ab'' = (2, None, mlw_ab) \<and>
   rbody (dst (mlw_stop mlw_ab)) = ''ab'' \<and> flushed (dst (mlw_stop mlw_ab)) = 0 \<and>
   running (mlw_stop mlw_ab) = False"
  by (simp add: mlw_Write_def resp_Write_def WriteHeader_def mlw_stop_def mlw0_def mlw_ab_def resp0_def)

text \<open>
  C8, amended. Stopping the flush-paced writer ends its flush loop and with it the
  ticker: the destination is left exactly as it was (nothing is flushed by the stop), and
  no tick flushes anything afterwards.
\<close>

theorem mlw_stop_cancels_timer:
  "running (mlw_stop m) = False \<and> dst (mlw_stop m) = dst m \<and>
   flushLoop_tick (mlw_stop m) = mlw_stop m \<and>
   (\<forall>t. flushLoop_until (mlw_stop m) t = mlw_stop m)"
  by (simp add: mlw_stop_def flushLoop_tick_def flushLoop_until_def)

section \<open>POST: the body reaches the outbound socket\<close>

lemma sock_Write_accepts:
  assumes "accepts s (length d + n)"
  shows "\<exists>s1. sock_Write s d = (length d, None, s1) \<and> outbound s1 = outbound s @ d \<and>
              accepts s1 n \<and> inbound s1 = inbound s \<and> readDeadline s1 = readDeadline s \<and>
              reads s1 = reads s"
  using assms by (auto simp: sock_Write_def accepts_def split: option.splits)

lemma io_Copy_to_sock_forwards:
  assumes "body_err body = EOF" and "accepts s (length (body_bytes body))"
  shows "\<exists>s1. io_Copy_to_sock s body = (None, s1) \<and> outbound s1 = outbound s @ body_bytes body \<and>
              \<not> sclosed s1 \<and> inbound s1 = inbound s \<and> readDeadline s1 = readDeadline s \<and>
              reads s1 = reads s"
  using assms
proof (induction body arbitrary: s)
  case Nil
  then show ?case by (simp add: accepts_def)
next
  case (Cons x body)
  obtain d er where x: "x = (d, er)" by (cases x)
  show ?case
  proof (cases er)
    case None
    have acc: "accepts s (length d + length (body_bytes body))"
      using Cons.prems(2) x None by simp
    have be: "body_err body = EOF" using Cons.prems(1) x None by simp
    show ?thesis
    proof (cases "d = []")
      case True
      then show ?thesis using Cons.IH[OF be, of s] acc x None by simp
    next
      case False
      from sock_Write_accepts[OF acc] obtain s1 where
        w: "sock_Write s d = (length d, None, s1)" "outbound s1 = outbound s @ d"
           "accepts s1 (length (body_bytes body))" "inbound s1 = inbound s"
           "readDeadline s1 = readDeadline s" "reads s1 = reads s"
        by blast
      from Cons.IH[OF be w(3)] obtain s2 where
        r: "io_Copy_to_sock s1 body = (None, s2)" "outbound s2 = outbound s1 @ body_bytes body"
           "\<not> sclosed s2" "inbound s2 = inbound s1" "readDeadline s2 = readDeadline s1"
           "reads s2 = reads s1"
        by blast
      show ?thesis using False x None w r by simp
    qed
  next
    case (Some e)
    then have e: "e = EOF" using Cons.prems(1) x by simp
    have acc: "accepts s (length d + 0)" using Cons.prems(2) x Some by simp
    show ?thesis
    proof (cases "d = []")
      case True
      then show ?thesis using x Some e acc by (simp add: accepts_def)
    next
      case False
      from sock_Write_accepts[OF acc] obtain s1 where
        w: "sock_Write s d = (length d, None, s1)" "outbound s1 = outbound s @ d"
           "accepts s1 0" "inbound s1 = inbound s"
           "readDeadline s1 = readDeadline s" "reads s1 = reads s"
        by blast
      show ?thesis using False x Some e w by (simp add: accepts_def)
    qed
  qed
qed

lemma sock_Read_open:
  assumes "\<not> sclosed c"
  shows "\<exists>d e c2 t2. sock_Read (SetReadDeadline c dl) tnow = Some ((d, e), c2, t2) \<and>
           outbound c2 = outbound c \<and> \<not> sclosed c2 \<and>
           (e = None \<or> e = Some (NetError False) \<longrightarrow> length (inbound c2) < length (inbound c))"
  using assms
  by (cases "inbound c") (auto simp: sock_Read_def SetReadDeadline_def Let_def)

lemma status_WriteHeader_200:
  "wrote r = None \<or> status r = Some 200 \<Longrightarrow> status (WriteHeader r 200) = Some 200"
  by (auto simp: WriteHeader_def status_def split: option.splits)

lemma status_resp_Write:
  "status r = Some 200 \<Longrightarrow> resp_Write r d = (n, e, r1) \<Longrightarrow> status r1 = Some 200"
  by (auto simp: resp_Write_def WriteHeader_def status_def Let_def split: option.splits if_splits)

lemma wrote_Header_Set: "wrote (Header_Set r k v) = wrote r"
  by (simp add: Header_Set_def)

lemma readLoop_pass_open:
  assumes "\<not> sclosed c" and "if first then wrote resp = None else status resp = Some 200"
  shows "\<exists>r l c1 t. (readLoop_pass p resp lc c first tnow = Some (Return (r, l, c1, t)) \<or>
                     readLoop_pass p resp lc c first tnow = Some (Continue (r, l, c1, t)) \<and>
                       \<not> sclosed c1 \<and> length (inbound c1) < length (inbound c)) \<and>
                    outbound c1 = outbound c \<and> status r = Some 200"
proof -
  obtain d e c2 t2 where rd: "sock_Read (SetReadDeadline c (tnow + IdleInterval p)) tnow = Some ((d, e), c2, t2)"
    and o: "outbound c2 = outbound c" and nc: "\<not> sclosed c2"
    and sh: "e = None \<or> e = Some (NetError False) \<longrightarrow> length (inbound c2) < length (inbound c)"
    using sock_Read_open[OF assms(1)] by blast
  define resp1 where "resp1 =
                 (if first then
                    (let r1 = (if e = Some EOF
                               then Header_Set resp X_HTTPCONN_EOF ''true'' else resp);
                         r2 = (if Host p \<noteq> []
                               then Header_Set r1 X_HTTPCONN_PROXY_HOST (Host p) else r1)
                     in WriteHeader r2 200)
                  else resp)"
  have s1: "status resp1 = Some 200"
    using assms(2) by (auto simp: resp1_def Let_def wrote_Header_Set intro!: status_WriteHeader_200)
  obtain nw writeErr resp2 where w: "(if d \<noteq> [] then resp_Write resp1 d else (0, None, resp1)) = (nw, writeErr, resp2)"
    by (metis prod_cases3)
  have s2: "status resp2 = Some 200"
    using w s1 status_resp_Write by (auto split: if_splits)
  define lc1 where "lc1 = (if d \<noteq> [] then lc\<lparr>bytesRead := bytesRead lc + int (length d)\<rparr> else lc)"
  have pass: "readLoop_pass p resp lc c first tnow =
      (if d \<noteq> [] \<and> writeErr \<noteq> None
       then Some (Return (resp2, lc, sock_Close c2, t2))
       else case e of
              None \<Rightarrow> Some (Continue (resp2, lc1, c2, t2))
            | Some e1 \<Rightarrow>
                (case e1 of
                   NetError tmo \<Rightarrow>
                     if tmo then Some (Return (resp2, lc1, c2, t2))
                     else Some (Continue (resp2, lc1, c2, t2))
                 | EOF \<Rightarrow> Some (Return (resp2, lc1, c2, t2))
                 | ErrShortWrite \<Rightarrow> Some (Return (resp2, lc1, sock_Close c2, t2))
                 | Failure m \<Rightarrow> Some (Return (resp2, lc1, sock_Close c2, t2))))"
    unfolding readLoop_pass_def Let_def rd
    using w unfolding resp1_def Let_def lc1_def
    by (simp split: option.splits error.splits)
  have oc: "outbound (sock_Close c2) = outbound c" using o by (simp add: sock_Close_def)
  show ?thesis
  proof (cases "d \<noteq> [] \<and> writeErr \<noteq> None")
    case True
    then show ?thesis using pass oc s2 by auto
  next
    case False
    show ?thesis
    proof (cases e)
      case None
      then show ?thesis using pass False o nc sh s2 by auto
    next
      case (Some e1)
      then show ?thesis using pass False o oc nc sh s2 by (cases e1) auto
    qed
  qed
qed

lemma readLoop_returns:
  assumes "\<not> sclosed c" and "if first then wrote resp = None else status resp = Some 200"
  shows "\<exists>r l c1 t. readLoop p resp lc c first tnow = Some (r, l, c1, t) \<and>
                    outbound c1 = outbound c \<and> status r = Some 200"
  using assms
proof (induction "length (inbound c)" arbitrary: c resp lc first tnow rule: less_induct)
  case less
  from readLoop_pass_open[OF less.prems, of p lc tnow]
  obtain r l c1 t where
    d: "readLoop_pass p resp lc c first tnow = Some (Return (r, l, c1, t)) \<or>
        readLoop_pass p resp lc c first tnow = Some (Continue (r, l, c1, t)) \<and>
          \<not> sclosed c1 \<and> length (inbound c1) < length (inbound c)"
    and o: "outbound c1 = outbound c" and s: "status r = Some 200"
    by blast
  from d show ?case
  proof
    assume "readLoop_pass p resp lc c first tnow = Some (Return (r, l, c1, t))"
    then have "readLoop p resp lc c first tnow = Some (r, l, c1, t)"
      by (subst readLoop.simps) simp
    then show ?thesis using o s by blast
  next
    assume a: "readLoop_pass p resp lc c first tnow = Some (Continue (r, l, c1, t)) \<and>
          \<not> sclosed c1 \<and> length (inbound c1) < length (inbound c)"
    then have e: "readLoop p resp lc c first tnow = readLoop p r l c1 False t"
      by (subst readLoop.simps) simp
    have "if False then wrote r = None else status r = Some 200" using s by simp
    from less.hyps[OF _ _ this, of c1 l t] a
    obtain r' l' c' t' where "readLoop p r l c1 False t = Some (r', l', c', t')"
      "outbound c' = outbound c1" "status r' = Some 200"
      by blast
    then show ?thesis using e o by simp
  qed
qed

text \<open>
  C1. A POST for an existing connection id, whose LazyConn yields its socket and whose
  body is read to its end, with the socket accepting that many bytes: both servers answer
  with status 200, and the socket kept for the id has received exactly the bytes of the
  body, in order, after what it had received before. The streaming server adds nothing to
  the response body.
\<close>

theorem POST_forwards_body:
  assumes "connMap p cid = Some lc" and "lazyConn_get p lc = (Inr c, lc1, ds)"
      and "Header_Get (rheader req) X_HTTPCONN_ID = cid" and "cid \<noteq> []"
      and "Header_Get (rheader req) X_HTTPCONN_DEST_ADDR \<noteq> []" and "rmethod req = ''POST''"
      and "body_err (rqbody req) = EOF" and "accepts c (length (body_bytes (rqbody req)))"
      and "wrote resp = None"
  shows "(\<exists>p1 r l c1. ServeHTTP_streaming eb p resp req = Some (p1, r) \<and> status r = Some 200 \<and>
            rbody r = rbody resp \<and> connMap p1 cid = Some l \<and> connOut l = Some c1 \<and>
            outbound c1 = outbound c @ body_bytes (rqbody req)) \<and>
         (\<exists>p1 r l c1. ServeHTTP_bounded p resp req = Some (p1, r) \<and> status r = Some 200 \<and>
            connMap p1 cid = Some l \<and> connOut l = Some c1 \<and>
            outbound c1 = outbound c @ body_bytes (rqbody req))"
proof -
  let ?addr = "Header_Get (rheader req) X_HTTPCONN_DEST_ADDR"
  have g: "getLazyConn p cid ?addr = (p, lc)"
    using assms(1) by (rule getLazyConn_existing)
  from io_Copy_to_sock_forwards[OF assms(7,8)] obtain s1 where
    cp: "io_Copy_to_sock c (rqbody req) = (None, s1)"
    and o: "outbound s1 = outbound c @ body_bytes (rqbody req)" and nc: "\<not> sclosed s1"
    by blast
  define p2 where "p2 = p\<lparr>connMap := (connMap p)(cid \<mapsto> lc1), dialed := dialed p @ ds\<rparr>"
  have hp: "handlePOST resp req c = (WriteHeader resp 200, s1)"
    using cp by (simp add: handlePOST_def)
  have "ServeHTTP_streaming eb p resp req =
          Some (p2\<lparr>connMap := (connMap p2)(cid \<mapsto> lc1\<lparr>connOut := Some s1\<rparr>)\<rparr>, WriteHeader resp 200)"
    using assms(2-6) g hp by (simp add: ServeHTTP_streaming_def Let_def p2_def)
  moreover have "status (WriteHeader resp 200) = Some 200" "rbody (WriteHeader resp 200) = rbody resp"
    using assms(9) by (simp_all add: status_def WriteHeader_def)
  ultimately have A: "\<exists>p1 r l c1. ServeHTTP_streaming eb p resp req = Some (p1, r) \<and> status r = Some 200 \<and>
            rbody r = rbody resp \<and> connMap p1 cid = Some l \<and> connOut l = Some c1 \<and>
            outbound c1 = outbound c @ body_bytes (rqbody req)"
    using o by simp
  have "if True then wrote resp = None else status resp = Some 200" using assms(9) by simp
  from readLoop_returns[OF nc this, of p2 lc1 "clock p2"] obtain r l c1 t where
    rl: "readLoop p2 resp lc1 s1 True (clock p2) = Some (r, l, c1, t)"
    and o1: "outbound c1 = outbound s1" and st: "status r = Some 200"
    by blast
  have "ServeHTTP_bounded p resp req =
          Some (p2\<lparr>connMap := (connMap p2)(cid \<mapsto> l\<lparr>connOut := Some c1\<rparr>), clock := t\<rparr>, r)"
    using assms(2-5) g cp rl by (simp add: ServeHTTP_bounded_def Let_def p2_def)
  then have B: "\<exists>p1 r l c1. ServeHTTP_bounded p resp req = Some (p1, r) \<and> status r = Some 200 \<and>
            connMap p1 cid = Some l \<and> connOut l = Some c1 \<and>
            outbound c1 = outbound c @ body_bytes (rqbody req)"
    using st o o1 by simp
  show ?thesis using A B by blast
qed

theorem POST_forwards_body_witness:
  "(\<exists>p1 r l c1. ServeHTTP_streaming 1 proxy_put resp0 post_req = Some (p1, r) \<and> status r = Some 200 \<and>
      connMap p1 ''abc'' = Some l \<and> connOut l = Some c1 \<and> outbound c1 = ''GET / HTTP/1.0'') \<and>
   (\<exists>p1 r l c1. ServeHTTP_bounded proxy_put resp0 post_req = Some (p1, r) \<and> status r = Some 200 \<and>
      connMap p1 ''abc'' = Some l \<and> connOut l = Some c1 \<and> outbound c1 = ''GET / HTTP/1.0'')"
proof -
  have a: "connMap proxy_put ''abc'' = Some lc_dialed"
          "lazyConn_get proxy_put lc_dialed = (Inr sock0, lc_dialed, [])"
          "Header_Get (rheader post_req) X_HTTPCONN_ID = ''abc''" "''abc'' \<noteq> []"
          "Header_Get (rheader post_req) X_HTTPCONN_DEST_ADDR \<noteq> []" "rmethod post_req = ''POST''"
          "body_err (rqbody post_req) = EOF" "accepts sock0 (length (body_bytes (rqbody post_req)))"
          "wrote resp0 = None"
    by (simp_all add: proxy_put_def lc_dialed_def lazyConn_get_def newLazyConn_def post_req_def req0_def
          Header_Get_def X_HTTPCONN_ID_def X_HTTPCONN_DEST_ADDR_def accepts_def sock0_def resp0_def)
  have b: "body_bytes (rqbody post_req) = ''GET / HTTP/1.0''" "outbound sock0 = []"
    by (simp_all add: post_req_def sock0_def)
  show ?thesis using POST_forwards_body[OF a] by (simp only: b append_Nil) blast
qed

section \<open>GET: a read that times out\<close>

lemma sock_Read_silent:
  assumes "\<not> sclosed c" and "silent_until c dl"
  shows "sock_Read (SetReadDeadline c dl) tnow =
           Some (([], Some (NetError True)), timed_out c dl, max tnow dl)"
  using assms
  by (cases "inbound c")
     (auto simp: sock_Read_def SetReadDeadline_def silent_until_def timed_out_def Let_def)

lemma readLoop_pass_timeout:
  assumes "\<not> sclosed c" and "silent_until c (tnow + IdleInterval p)"
  shows "readLoop_pass p resp lc c first tnow =
           Some (Return (if first
                         then WriteHeader (if Host p \<noteq> []
                                           then Header_Set resp X_HTTPCONN_PROXY_HOST (Host p)
                                           else resp) 200
                         else resp,
                         lc, timed_out c (tnow + IdleInterval p), max tnow (tnow + IdleInterval p)))"
  using sock_Read_silent[OF assms, of tnow]
  by (simp add: readLoop_pass_def Let_def)

lemma readLoop_timeout:
  assumes "\<not> sclosed c" and "silent_until c (tnow + IdleInterval p)"
  shows "readLoop p resp lc c first tnow =
           Some (if first
                 then WriteHeader (if Host p \<noteq> []
                                   then Header_Set resp X_HTTPCONN_PROXY_HOST (Host p)
                                   else resp) 200
                 else resp,
                 lc, timed_out c (tnow + IdleInterval p), max tnow (tnow + IdleInterval p))"
  by (subst readLoop.simps) (simp add: readLoop_pass_timeout[OF assms])

lemma io_Copy_from_sock_timeout:
  assumes "\<not> sclosed c" and "silent_until c dl"
  shows "io_Copy_from_sock m (SetReadDeadline c dl) tnow =
           Some (Some (NetError True), flushLoop_until m (max tnow dl), timed_out c dl, max tnow dl)"
  by (subst io_Copy_from_sock.simps) (simp add: sock_Read_silent[OF assms] Let_def)

lemma flushLoop_until_dst:
  "wrote (dst m) \<noteq> None \<Longrightarrow>
     wrote (dst (flushLoop_until m t)) = wrote (dst m) \<and>
     rbody (dst (flushLoop_until m t)) = rbody (dst m) \<and>
     rcap (dst (flushLoop_until m t)) = rcap (dst m)"
  by (auto simp: flushLoop_until_def flushLoop_tick_def Flush_def WriteHeader_def Let_def)

text \<open>
  Every pass of the bounded-read server's loop, the first as the later ones, reads under
  the deadline of its own current time plus IdleInterval.
\<close>

lemma sock_Read_keeps_deadline:
  "sock_Read s tnow = Some (x, s1, t1) \<Longrightarrow> readDeadline s1 = readDeadline s"
  by (auto simp: sock_Read_def Let_def split: if_splits list.splits option.splits)

lemma readLoop_pass_deadline:
  assumes "readLoop_pass p resp lc c first tnow = Some x"
  shows "readDeadline (fst (snd (snd (step_state x)))) = Some (tnow + IdleInterval p)"
proof -
  obtain d e c2 t2 where rd: "sock_Read (SetReadDeadline c (tnow + IdleInterval p)) tnow = Some ((d, e), c2, t2)"
    using assms by (auto simp: readLoop_pass_def Let_def split: option.splits)
  have dl: "readDeadline c2 = Some (tnow + IdleInterval p)"
    using sock_Read_keeps_deadline[OF rd] by (simp add: SetReadDeadline_def)
  have "fst (snd (snd (step_state x))) = c2 \<or> fst (snd (snd (step_state x))) = sock_Close c2"
    using assms rd
    by (auto simp: readLoop_pass_def Let_def split: if_splits option.splits error.splits prod.splits)
  then show ?thesis using dl by (auto simp: sock_Close_def)
qed

lemma handleGET_timeout:
  assumes "\<not> hitEOF lc" and "0 < FlushInterval p" and "\<not> sclosed c"
      and "silent_until c (clock p + 30 * Second)" and "wrote resp = None"
  shows "\<exists>r. handleGET eb p resp req lc c =
               Some (p\<lparr>clock := max (clock p) (clock p + 30 * Second)\<rparr>, r,
                     lc\<lparr>connOut := Some (timed_out c (clock p + 30 * Second))\<rparr>) \<and>
             status r = Some 200 \<and> rbody r = rbody resp \<and>
             sent_header r X_HTTPCONN_EOF = Header_Get (header resp) X_HTTPCONN_EOF"
proof -
  let ?dl = "clock p + 30 * Second"
  let ?t = "max (clock p) ?dl"
  let ?r1 = "WriteHeader (Header_Set resp ''X-Accel-Buffering'' ''no'') 200"
  let ?m = "\<lparr>dst = ?r1, latency = FlushInterval p, nextTick = clock p + FlushInterval p, running = True\<rparr>"
  let ?m1 = "flushLoop_until ?m ?t"
  let ?r = "dst (mlw_stop (flushLoop_until ?m1 ?t))"
  have w1: "wrote ?r1 = Some (200, (header resp)(''X-Accel-Buffering'' \<mapsto> ''no''))"
    using assms(5) by (simp add: WriteHeader_def Header_Set_def)
  have b1: "rbody ?r1 = rbody resp"
    using assms(5) by (simp add: WriteHeader_def Header_Set_def)
  have "wrote (dst ?m) \<noteq> None" using w1 by simp
  note f1 = flushLoop_until_dst[OF this, of ?t]
  have "wrote (dst ?m1) \<noteq> None" using f1 w1 by simp
  note f2 = flushLoop_until_dst[OF this, of ?t]
  have wr: "wrote ?r = wrote ?r1" and br: "rbody ?r = rbody resp"
    using f1 f2 b1 by (simp_all add: mlw_stop_def)
  have h: "handleGET eb p resp req lc c =
             Some (p\<lparr>clock := ?t\<rparr>, ?r, lc\<lparr>connOut := Some (timed_out c ?dl)\<rparr>)"
    using assms(1,2) io_Copy_from_sock_timeout[OF assms(3,4), of ?m "clock p"]
    by (simp add: handleGET_def Let_def)
  have "status ?r = Some 200"
    using wr w1 by (simp add: status_def)
  moreover have "sent_header ?r X_HTTPCONN_EOF = Header_Get (header resp) X_HTTPCONN_EOF"
    using wr w1 by (simp add: sent_header_def Header_Get_def X_HTTPCONN_EOF_def)
  ultimately show ?thesis using h br by blast
qed


text \<open>
  What does hold when nothing becomes available on the socket by the read deadline, for a
  GET with no body on a dialed and open socket: the bounded-read server reads under the
  deadline of the current time plus IdleInterval, the streaming server (FlushInterval
  positive, EOF flag clear) under the current time plus 30 seconds; either ends the
  response with status 200, an empty body and no EOF header and leaves the socket open.
\<close>

lemma GET_timeout_ends_normally:
  assumes "connMap p cid = Some lc" and "connOut lc = Some c" and "dialErr lc = None"
      and "\<not> hitEOF lc" and "\<not> sclosed c"
      and "Header_Get (rheader req) X_HTTPCONN_ID = cid" and "cid \<noteq> []"
      and "Header_Get (rheader req) X_HTTPCONN_DEST_ADDR \<noteq> []" and "rmethod req = ''GET''"
      and "rqbody req = []" and "wrote resp = None"
      and "Header_Get (header resp) X_HTTPCONN_EOF = []"
  shows "(silent_until c (clock p + IdleInterval p) \<longrightarrow>
            (\<exists>p1 r l. ServeHTTP_bounded p resp req = Some (p1, r) \<and> status r = Some 200 \<and>
               rbody r = rbody resp \<and> sent_header r X_HTTPCONN_EOF = [] \<and>
               connMap p1 cid = Some l \<and>
               connOut l = Some (timed_out c (clock p + IdleInterval p)))) \<and>
         (silent_until c (clock p + 30 * Second) \<and> 0 < FlushInterval p \<longrightarrow>
            (\<exists>p1 r l. ServeHTTP_streaming eb p resp req = Some (p1, r) \<and> status r = Some 200 \<and>
               rbody r = rbody resp \<and> sent_header r X_HTTPCONN_EOF = [] \<and>
               connMap p1 cid = Some l \<and> \<not> hitEOF l \<and>
               connOut l = Some (timed_out c (clock p + 30 * Second))))"
proof (intro conjI impI)
  let ?addr = "Header_Get (rheader req) X_HTTPCONN_DEST_ADDR"
  have g: "getLazyConn p cid ?addr = (p, lc)"
    using assms(1) by (rule getLazyConn_existing)
  have l: "lazyConn_get p lc = (Inr c, lc, [])"
    using assms(3,2) by (rule lazyConn_get_dialed)
  have m: "(connMap p)(cid \<mapsto> lc) = connMap p"
    using assms(1) by (rule map_upd_triv)
  {
    assume s: "silent_until c (clock p + IdleInterval p)"
    let ?r = "WriteHeader (if Host p \<noteq> [] then Header_Set resp X_HTTPCONN_PROXY_HOST (Host p)
                           else resp) 200"
    let ?c = "timed_out c (clock p + IdleInterval p)"
    have rl: "readLoop p resp lc c True (clock p) =
                Some (?r, lc, ?c, max (clock p) (clock p + IdleInterval p))"
      using readLoop_timeout[OF assms(5) s, of resp lc True] by simp
    have "ServeHTTP_bounded p resp req =
            Some (p\<lparr>connMap := (connMap p)(cid \<mapsto> lc\<lparr>connOut := Some ?c\<rparr>),
                     clock := max (clock p) (clock p + IdleInterval p)\<rparr>, ?r)"
      using assms(6,7,8,10) g l m rl by (simp add: ServeHTTP_bounded_def Let_def)
    moreover have "status ?r = Some 200 \<and> rbody ?r = rbody resp \<and> sent_header ?r X_HTTPCONN_EOF = []"
      using assms(11,12)
      by (simp add: status_def sent_header_def WriteHeader_def Header_Set_def Header_Get_def
            X_HTTPCONN_EOF_def X_HTTPCONN_PROXY_HOST_def)
    ultimately show "\<exists>p1 r l. ServeHTTP_bounded p resp req = Some (p1, r) \<and> status r = Some 200 \<and>
               rbody r = rbody resp \<and> sent_header r X_HTTPCONN_EOF = [] \<and>
               connMap p1 cid = Some l \<and>
               connOut l = Some (timed_out c (clock p + IdleInterval p))"
      by simp
  }
  {
    assume s: "silent_until c (clock p + 30 * Second) \<and> 0 < FlushInterval p"
    let ?c = "timed_out c (clock p + 30 * Second)"
    from handleGET_timeout[OF assms(4) _ assms(5) _ assms(11), where p=p and req=req and eb=eb] s
    obtain r where h: "handleGET eb p resp req lc c =
               Some (p\<lparr>clock := max (clock p) (clock p + 30 * Second)\<rparr>, r, lc\<lparr>connOut := Some ?c\<rparr>)"
      and r: "status r = Some 200" "rbody r = rbody resp"
             "sent_header r X_HTTPCONN_EOF = Header_Get (header resp) X_HTTPCONN_EOF"
      by blast
    have "ServeHTTP_streaming eb p resp req =
            Some (p\<lparr>clock := max (clock p) (clock p + 30 * Second),
                     connMap := (connMap p)(cid \<mapsto> lc\<lparr>connOut := Some ?c\<rparr>)\<rparr>, r)"
      using assms(6,7,8,9) g l m h by (simp add: ServeHTTP_streaming_def Let_def)
    then show "\<exists>p1 r l. ServeHTTP_streaming eb p resp req = Some (p1, r) \<and> status r = Some 200 \<and>
               rbody r = rbody resp \<and> sent_header r X_HTTPCONN_EOF = [] \<and>
               connMap p1 cid = Some l \<and> \<not> hitEOF l \<and>
               connOut l = Some (timed_out c (clock p + 30 * Second))"
      using r assms(4,12) by simp
  }
qed



section \<open>GET: the socket reports the end of the stream\<close>














end
